theory Spec2Isabelle
  imports Main "HOL-Library.Multiset"
begin

section \<open>The manifest controller of machined (controllers/k8s/manifest.go)\<close>

text \<open>
  The controller renders the bootstrap manifests from the control plane configuration and
  the Kubernetes secrets, writes them into its own namespace of the resource graph and
  removes what it no longer renders. Everything it does to the outside world goes through
  the \<^verbatim>\<open>controller.Runtime\<close> it is handed; that interface, the template engine and the
  constants of the resource packages are parameters of the model.
\<close>

subsection \<open>Errors\<close>

text \<open>
  A Go \<^verbatim>\<open>error\<close> value. \<open>Errorf fmt args e\<close> is \<^verbatim>\<open>fmt.Errorf(fmt, args..., e)\<close> with
  the format string kept unexpanded: \<open>args\<close> are the values of its \<^verbatim>\<open>%q\<close> verbs and
  \<open>e\<close> the error wrapped by \<^verbatim>\<open>%w\<close>. \<open>NotFound\<close> is the store's "no such resource",
  \<open>Failure\<close> any other error of a collaborator. A failed type assertion panics; the
  panic is the value \<open>Panic\<close>, which is not an error a collaborator returns.
\<close>

datatype error =
    NotFound
  | Failure string
  | Errorf string "string list" error
  | Panic string

text \<open>\<^verbatim>\<open>state.IsNotFoundError\<close>: looks through the \<^verbatim>\<open>%w\<close> chain, as \<^verbatim>\<open>errors.As\<close> does.\<close>

fun IsNotFoundError :: "error \<Rightarrow> bool" where
  "IsNotFoundError NotFound = True"
| "IsNotFoundError (Failure _) = False"
| "IsNotFoundError (Errorf _ _ e) = IsNotFoundError e"
| "IsNotFoundError (Panic _) = False"

subsection \<open>Resources\<close>

type_synonym bytes = string

text \<open>
  \<^verbatim>\<open>resource.NewMetadata(ns, typ, id, version)\<close>. The controller passes
  \<^verbatim>\<open>resource.VersionUndefined\<close> wherever it builds a metadata value, and a resource is
  identified by the other three components, so the version is left out.
\<close>

datatype Metadata = NewMetadata (Namespace_of: string) (Type_of: string) (ID_of: string)

text \<open>
  \<^verbatim>\<open>config.K8sManifestsSpec\<close>: of its fields the controller itself reads
  \<^verbatim>\<open>DNSServiceIPv6\<close> and \<^verbatim>\<open>FlannelEnabled\<close>; the others are read by the templates
  only and are kept together in \<open>TemplateFields\<close>. \<^verbatim>\<open>secrets.KubernetesSpec\<close> is read by
  the templates only.
\<close>

record K8sManifestsSpec =
  DNSServiceIPv6 :: string
  FlannelEnabled :: bool
  TemplateFields :: "(string \<times> string) list"

type_synonym KubernetesSpec = "(string \<times> string) list"

text \<open>
  A \<^verbatim>\<open>resource.Resource\<close> with its dynamic type: \<^verbatim>\<open>*config.K8sControlPlane\<close>,
  \<^verbatim>\<open>*secrets.Kubernetes\<close> or \<^verbatim>\<open>*k8s.Manifest\<close>, the last one holding the YAML it was
  given.
\<close>

datatype Resource =
    K8sControlPlane Metadata K8sManifestsSpec
  | Kubernetes Metadata KubernetesSpec
  | Manifest Metadata bytes

text \<open>The method \<^verbatim>\<open>Metadata()\<close> of a resource.\<close>

fun Metadata_of :: "Resource \<Rightarrow> Metadata" where
  "Metadata_of (K8sControlPlane md _) = md"
| "Metadata_of (Kubernetes md _) = md"
| "Metadata_of (Manifest md _) = md"

text \<open>
  The constants of the packages \<^verbatim>\<open>config\<close>, \<^verbatim>\<open>secrets\<close> and \<^verbatim>\<open>k8s\<close> the controller
  names. Their values are declared outside the controller; they are a parameter.
\<close>

record Constants =
  config_NamespaceName :: string
  config_K8sControlPlaneType :: string
  config_K8sManifestsID :: string
  secrets_NamespaceName :: string
  secrets_KubernetesType :: string
  secrets_KubernetesID :: string
  k8s_ControlPlaneNamespaceName :: string
  k8s_ManifestType :: string

text \<open>
  \<^verbatim>\<open>k8s.NewManifest(ns, id)\<close>: a manifest resource of type \<^verbatim>\<open>k8s.ManifestType\<close> (the
  type \<^verbatim>\<open>ManagedResources\<close> announces) with nothing in it yet.
\<close>

definition NewManifest :: "Constants \<Rightarrow> string \<Rightarrow> string \<Rightarrow> Resource" where
  "NewManifest K ns ident = Manifest (NewMetadata ns (k8s_ManifestType K) ident) []"

text \<open>
  Modelled from the spec: \<^verbatim>\<open>(*k8s.Manifest).SetYAML\<close> is declared in the resource package
  \<^verbatim>\<open>k8s\<close>, outside the controller. A managed output resource holds the last-applied
  payload, so setting the YAML replaces what the manifest holds by the bytes given. An
  error of the mutator makes \<^verbatim>\<open>Update\<close> fail; the errors of \<^verbatim>\<open>Update\<close> stand for it.
\<close>

definition SetYAML :: "bytes \<Rightarrow> Metadata \<Rightarrow> bytes \<Rightarrow> error + Resource" where
  "SetYAML yamlBytes md old = Inr (Manifest md yamlBytes)"

text \<open>
  The mutator handed to \<^verbatim>\<open>Update\<close>: \<^verbatim>\<open>r.(*k8s.Manifest).SetYAML(renderedManifest.data)\<close>.
  The type assertion panics on a resource that is not a manifest.
\<close>

definition setManifestYAML :: "bytes \<Rightarrow> Resource \<Rightarrow> error + Resource" where
  "setManifestYAML yamlBytes r =
    (case r of
       Manifest md old \<Rightarrow> SetYAML yamlBytes md old
     | _ \<Rightarrow> Inl (Panic ''interface conversion: resource.Resource is not *k8s.Manifest''))"

subsection \<open>Rendering\<close>

record renderedManifest =
  name :: string
  data :: bytes

record manifestDesc =
  desc_name :: string
  template :: bytes

text \<open>
  The template bodies are package-level byte slices declared next to the controller;
  they are a parameter, one field for each.
\<close>

record Templates =
  kubeletBootstrappingToken :: bytes
  csrNodeBootstrapTemplate :: bytes
  csrApproverRoleBindingTemplate :: bytes
  csrRenewalRoleBindingTemplate :: bytes
  kubeSystemSARoleBindingTemplate :: bytes
  podSecurityPolicy :: bytes
  kubeProxyTemplate :: bytes
  kubeConfigInClusterTemplate :: bytes
  coreDNSTemplate :: bytes
  coreDNSSvcTemplate :: bytes
  coreDNSv6SvcTemplate :: bytes
  flannelTemplate :: bytes

text \<open>
  The anonymous struct \<^verbatim>\<open>templateConfig\<close>: the configuration embedded, the secrets in
  the field \<^verbatim>\<open>Secrets\<close>.
\<close>

record templateConfig =
  tc_K8sManifestsSpec :: K8sManifestsSpec
  Secrets :: KubernetesSpec

text \<open>
  The engine \<^verbatim>\<open>html/template\<close>: \<open>Parse n text\<close> is \<^verbatim>\<open>template.New(n).Parse(text)\<close>,
  \<open>Execute t d\<close> is \<^verbatim>\<open>t.Execute(&buf, d)\<close> followed by \<^verbatim>\<open>buf.Bytes()\<close> on a buffer
  that starts empty. \<open>'t\<close> is the type of parsed templates.
\<close>

record 't Engine =
  Parse :: "string \<Rightarrow> string \<Rightarrow> error + 't"
  Execute :: "'t \<Rightarrow> templateConfig \<Rightarrow> error + bytes"

definition defaultManifests :: "Templates \<Rightarrow> manifestDesc list" where
  "defaultManifests T =
    [\<lparr>desc_name = ''00-kubelet-bootstrapping-token'', template = kubeletBootstrappingToken T\<rparr>,
     \<lparr>desc_name = ''01-csr-node-bootstrap'', template = csrNodeBootstrapTemplate T\<rparr>,
     \<lparr>desc_name = ''01-csr-approver-role-binding'', template = csrApproverRoleBindingTemplate T\<rparr>,
     \<lparr>desc_name = ''01-csr-renewal-role-binding'', template = csrRenewalRoleBindingTemplate T\<rparr>,
     \<lparr>desc_name = ''02-kube-system-sa-role-binding'', template = kubeSystemSARoleBindingTemplate T\<rparr>,
     \<lparr>desc_name = ''03-default-pod-security-policy'', template = podSecurityPolicy T\<rparr>,
     \<lparr>desc_name = ''10-kube-proxy'', template = kubeProxyTemplate T\<rparr>,
     \<lparr>desc_name = ''11-kube-config-in-cluster'', template = kubeConfigInClusterTemplate T\<rparr>,
     \<lparr>desc_name = ''11-core-dns'', template = coreDNSTemplate T\<rparr>,
     \<lparr>desc_name = ''11-core-dns-svc'', template = coreDNSSvcTemplate T\<rparr>]"

text \<open>The two conditional appends of \<^verbatim>\<open>render\<close>, in the order of the source.\<close>

definition manifestDescs :: "Templates \<Rightarrow> K8sManifestsSpec \<Rightarrow> manifestDesc list" where
  "manifestDescs T cfg =
    (let ds = defaultManifests T;
         ds = (if DNSServiceIPv6 cfg \<noteq> ''''
               then ds @ [\<lparr>desc_name = ''11-core-dns-v6-svc'', template = coreDNSv6SvcTemplate T\<rparr>]
               else ds);
         ds = (if FlannelEnabled cfg
               then ds @ [\<lparr>desc_name = ''05-flannel'', template = flannelTemplate T\<rparr>]
               else ds)
     in ds)"

text \<open>
  The loop over the descriptions: the first template that fails to parse or to execute
  ends \<^verbatim>\<open>render\<close> with the wrapped error and no manifests.
\<close>

fun renderAll :: "'t Engine \<Rightarrow> templateConfig \<Rightarrow> manifestDesc list \<Rightarrow> error + renderedManifest list" where
  "renderAll E tc [] = Inr []"
| "renderAll E tc (d # ds) =
    (case Parse E (desc_name d) (template d) of
       Inl err \<Rightarrow> Inl (Errorf ''error parsing manifest template %q: %w'' [desc_name d] err)
     | Inr tmpl \<Rightarrow>
        (case Execute E tmpl tc of
           Inl err \<Rightarrow> Inl (Errorf ''error executing template %q: %w'' [desc_name d] err)
         | Inr buf \<Rightarrow>
            (case renderAll E tc ds of
               Inl err \<Rightarrow> Inl err
             | Inr manifests \<Rightarrow> Inr (\<lparr>name = desc_name d, data = buf\<rparr> # manifests))))"

definition render :: "'t Engine \<Rightarrow> Templates \<Rightarrow> K8sManifestsSpec \<Rightarrow> KubernetesSpec \<Rightarrow> error + renderedManifest list" where
  "render E T cfg scrt =
    (let templateConfig = \<lparr>tc_K8sManifestsSpec = cfg, Secrets = scrt\<rparr>
     in renderAll E templateConfig (manifestDescs T cfg))"

subsection \<open>The runtime\<close>

datatype DependencyKind = DependencyStrong | DependencyWeak

record Dependency =
  Namespace :: string
  Type :: string
  ID :: "string option"
  Kind :: DependencyKind

text \<open>
  \<^verbatim>\<open>controller.Runtime\<close>, the resource graph as the controller sees it. \<open>'s\<close> is the
  state of everything behind the interface; a call returns its Go results and the state
  it leaves, also when it fails. \<open>Update rt new f\<close> is \<^verbatim>\<open>rt.Update(ctx, new, f)\<close>.
  \<^verbatim>\<open>ctx\<close> is handed on to every call; a runtime that gives up on a cancelled context
  returns an error like any other.
\<close>

record 's Runtime =
  UpdateDependencies :: "Dependency list \<Rightarrow> 's \<Rightarrow> error option \<times> 's"
  Get :: "Metadata \<Rightarrow> 's \<Rightarrow> (error + Resource) \<times> 's"
  List :: "Metadata \<Rightarrow> 's \<Rightarrow> (error + Resource list) \<times> 's"
  Update :: "Resource \<Rightarrow> (Resource \<Rightarrow> error + Resource) \<Rightarrow> 's \<Rightarrow> error option \<times> 's"
  Destroy :: "Metadata \<Rightarrow> 's \<Rightarrow> error option \<times> 's"

subsection \<open>Teardown\<close>

text \<open>The loop of \<^verbatim>\<open>teardownAll\<close> over \<^verbatim>\<open>manifests.Items\<close>.\<close>

fun destroyItems :: "'s Runtime \<Rightarrow> Resource list \<Rightarrow> 's \<Rightarrow> error option \<times> 's" where
  "destroyItems r [] s = (None, s)"
| "destroyItems r (manifest # items) s =
    (case Destroy r (Metadata_of manifest) s of
       (Some err, s') \<Rightarrow> (Some (Errorf ''error destroying manifest: %w'' [] err), s')
     | (None, s') \<Rightarrow> destroyItems r items s')"

definition teardownAll :: "Constants \<Rightarrow> 's Runtime \<Rightarrow> 's \<Rightarrow> error option \<times> 's" where
  "teardownAll K r s =
    (case List r (NewMetadata (k8s_ControlPlaneNamespaceName K) (k8s_ManifestType K) '''') s of
       (Inl err, s') \<Rightarrow> (Some (Errorf ''error listing manifests: %w'' [] err), s')
     | (Inr manifests, s') \<Rightarrow> destroyItems r manifests s')"

subsection \<open>One cycle\<close>

text \<open>The first loop of a cycle: one \<^verbatim>\<open>Update\<close> for each rendered manifest, in order.\<close>

fun updateManifests :: "Constants \<Rightarrow> 's Runtime \<Rightarrow> renderedManifest list \<Rightarrow> 's \<Rightarrow> error option \<times> 's" where
  "updateManifests K r [] s = (None, s)"
| "updateManifests K r (renderedManifest # rest) s =
    (case Update r (NewManifest K (k8s_ControlPlaneNamespaceName K) (name renderedManifest))
            (setManifestYAML (data renderedManifest)) s of
       (Some err, s') \<Rightarrow> (Some (Errorf ''error updating manifests: %w'' [] err), s')
     | (None, s') \<Rightarrow> updateManifests K r rest s')"

text \<open>
  The Go map \<^verbatim>\<open>map[string]struct{}\<close> is the list of its keys, no key twice:
  \<open>mapStore\<close> is \<^verbatim>\<open>m[k] = struct{}{}\<close>, \<open>mapDelete\<close> is \<^verbatim>\<open>delete(m, k)\<close>.
\<close>

definition mapStore :: "string \<Rightarrow> string list \<Rightarrow> string list" where
  "mapStore k m = (if k \<in> set m then m else m @ [k])"

definition mapDelete :: "string \<Rightarrow> string list \<Rightarrow> string list" where
  "mapDelete k m = filter (\<lambda>k'. k' \<noteq> k) m"

text \<open>
  \<^verbatim>\<open>manifestsToDelete\<close> once both loops that build it have run: every listed id stored,
  then every rendered name deleted.
\<close>

definition manifestsToDelete :: "Resource list \<Rightarrow> renderedManifest list \<Rightarrow> string list" where
  "manifestsToDelete items renderedManifests =
    fold (\<lambda>renderedManifest m. mapDelete (name renderedManifest) m) renderedManifests
      (fold (\<lambda>manifest m. mapStore (ID_of (Metadata_of manifest)) m) items [])"

text \<open>
  \<^verbatim>\<open>range\<close> over a Go map visits the keys in an order the language leaves open. The
  order comes with the wake-up as a sequence of choices: each number picks the next key
  among those not yet visited; when the choices run out the rest is visited as it
  stands. Every order of the keys is the result of some sequence.
\<close>

fun rangeOrder :: "nat list \<Rightarrow> 'a list \<Rightarrow> 'a list" where
  "rangeOrder _ [] = []"
| "rangeOrder [] (k # m) = k # m"
| "rangeOrder (c # cs) (k # m) =
    (let i = c mod length (k # m)
     in ((k # m) ! i) # rangeOrder cs (take i (k # m) @ drop (Suc i) (k # m)))"

text \<open>The last loop of a cycle: \<^verbatim>\<open>Destroy\<close> for each key of \<^verbatim>\<open>manifestsToDelete\<close>.\<close>

fun destroyManifests :: "Constants \<Rightarrow> 's Runtime \<Rightarrow> string list \<Rightarrow> 's \<Rightarrow> error option \<times> 's" where
  "destroyManifests K r [] s = (None, s)"
| "destroyManifests K r (ident # rest) s =
    (case Destroy r (NewMetadata (k8s_ControlPlaneNamespaceName K) (k8s_ManifestType K) ident) s of
       (Some err, s') \<Rightarrow> (Some (Errorf ''error cleaning up manifests: %w'' [] err), s')
     | (None, s') \<Rightarrow> destroyManifests K r rest s')"

text \<open>
  Lines 100 to 131 of \<^verbatim>\<open>Run\<close>: the rendered manifests are written, then the namespace
  is listed, then what was listed and not rendered is destroyed. \<open>None\<close> is reaching the
  end of the loop body, \<open>Some err\<close> is \<^verbatim>\<open>return err\<close>.
\<close>

definition converge :: "Constants \<Rightarrow> 's Runtime \<Rightarrow> nat list \<Rightarrow> renderedManifest list \<Rightarrow> 's \<Rightarrow> error option \<times> 's" where
  "converge K r order renderedManifests s =
    (case updateManifests K r renderedManifests s of
       (Some err, s1) \<Rightarrow> (Some err, s1)
     | (None, s1) \<Rightarrow>
        (case List r (NewMetadata (k8s_ControlPlaneNamespaceName K) (k8s_ManifestType K) '''') s1 of
           (Inl err, s2) \<Rightarrow> (Some (Errorf ''error listing manifests: %w'' [] err), s2)
         | (Inr manifests, s2) \<Rightarrow>
            destroyManifests K r
              (rangeOrder order (manifestsToDelete manifests renderedManifests)) s2))"

text \<open>
  What a missing input leads to, the same after either \<^verbatim>\<open>Get\<close>: a \<^verbatim>\<open>NotFound\<close> error
  tears everything down and the loop goes on (\<^verbatim>\<open>continue\<close>), unless tearing down fails;
  any other error is returned as it is.
\<close>

definition onGetError :: "Constants \<Rightarrow> 's Runtime \<Rightarrow> error \<Rightarrow> 's \<Rightarrow> error option \<times> 's" where
  "onGetError K r err s =
    (if IsNotFoundError err
     then (case teardownAll K r s of
             (Some err', s') \<Rightarrow> (Some (Errorf ''error tearing down: %w'' [] err'), s')
           | (None, s') \<Rightarrow> (None, s'))
     else (Some err, s))"

text \<open>
  The body of the \<^verbatim>\<open>for\<close> loop after the \<^verbatim>\<open>select\<close>, lines 65 to 131. \<open>None\<close> is
  going round the loop again, \<open>Some err\<close> is \<^verbatim>\<open>return err\<close> (or the panic of a type
  assertion).
\<close>

definition cycle :: "Constants \<Rightarrow> 't Engine \<Rightarrow> Templates \<Rightarrow> 's Runtime \<Rightarrow> nat list \<Rightarrow> 's \<Rightarrow> error option \<times> 's" where
  "cycle K E T r order s =
    (case Get r (NewMetadata (config_NamespaceName K) (config_K8sControlPlaneType K) (config_K8sManifestsID K)) s of
       (Inl err, s1) \<Rightarrow> onGetError K r err s1
     | (Inr configResource, s1) \<Rightarrow>
        (case configResource of
           K8sControlPlane _ config \<Rightarrow>
            (case Get r (NewMetadata (secrets_NamespaceName K) (secrets_KubernetesType K) (secrets_KubernetesID K)) s1 of
               (Inl err, s2) \<Rightarrow> onGetError K r err s2
             | (Inr secretsResources, s2) \<Rightarrow>
                (case secretsResources of
                   Kubernetes _ secrets \<Rightarrow>
                    (case render E T config secrets of
                       Inl err \<Rightarrow> (Some err, s2)
                     | Inr renderedManifests \<Rightarrow> converge K r order renderedManifests s2)
                 | _ \<Rightarrow> (Some (Panic ''interface conversion: resource.Resource is not *secrets.Kubernetes''), s2)))
         | _ \<Rightarrow> (Some (Panic ''interface conversion: resource.Resource is not *config.K8sControlPlane''), s1)))"

subsection \<open>The loop\<close>

text \<open>
  What the \<^verbatim>\<open>select\<close> at the head of the loop receives: \<open>Done\<close> from \<^verbatim>\<open>ctx.Done()\<close>,
  or \<open>Event\<close> from \<^verbatim>\<open>r.EventCh()\<close>. When both channels are ready Go picks one of
  them; the list of signals handed to \<open>Run\<close> is the list of these picks. An event
  carries the order in which the cycle it starts ranges over its map.
\<close>

datatype Signal = Done | Event "nat list"

text \<open>
  How \<^verbatim>\<open>Run\<close> ends: it has returned (\<open>None\<close> is \<^verbatim>\<open>nil\<close>), or it is blocked in the
  \<^verbatim>\<open>select\<close> with no signal left to receive.
\<close>

datatype Outcome = Returned "error option" | Waiting

fun loop :: "Constants \<Rightarrow> 't Engine \<Rightarrow> Templates \<Rightarrow> 's Runtime \<Rightarrow> Signal list \<Rightarrow> 's \<Rightarrow> Outcome \<times> 's" where
  "loop K E T r [] s = (Waiting, s)"
| "loop K E T r (Done # signals) s = (Returned None, s)"
| "loop K E T r (Event order # signals) s =
    (case cycle K E T r order s of
       (Some err, s') \<Rightarrow> (Returned (Some err), s')
     | (None, s') \<Rightarrow> loop K E T r signals s')"

definition dependencies :: "Constants \<Rightarrow> Dependency list" where
  "dependencies K =
    [\<lparr>Namespace = config_NamespaceName K, Type = config_K8sControlPlaneType K,
      ID = Some (config_K8sManifestsID K), Kind = DependencyWeak\<rparr>,
     \<lparr>Namespace = secrets_NamespaceName K, Type = secrets_KubernetesType K,
      ID = Some (secrets_KubernetesID K), Kind = DependencyWeak\<rparr>]"

definition Run :: "Constants \<Rightarrow> 't Engine \<Rightarrow> Templates \<Rightarrow> 's Runtime \<Rightarrow> Signal list \<Rightarrow> 's \<Rightarrow> Outcome \<times> 's" where
  "Run K E T r signals s =
    (case UpdateDependencies r (dependencies K) s of
       (Some err, s') \<Rightarrow> (Returned (Some (Errorf ''error setting up dependencies: %w'' [] err)), s')
     | (None, s') \<Rightarrow> loop K E T r signals s')"

subsection \<open>What the runtime is asked for\<close>

text \<open>
  The calls a run makes, in order, are recorded by wrapping the runtime: \<open>traced r\<close>
  behaves as \<open>r\<close> does and appends every call to a log kept beside the state of \<open>r\<close>.
\<close>

datatype Call =
    CallUpdateDependencies "Dependency list"
  | CallGet Metadata
  | CallList Metadata
  | CallUpdate Resource
  | CallDestroy Metadata

definition traced :: "'s Runtime \<Rightarrow> ('s \<times> Call list) Runtime" where
  "traced r =
    \<lparr>UpdateDependencies = (\<lambda>deps (s, calls).
        case UpdateDependencies r deps s of (res, s') \<Rightarrow> (res, (s', calls @ [CallUpdateDependencies deps]))),
     Get = (\<lambda>md (s, calls).
        case Get r md s of (res, s') \<Rightarrow> (res, (s', calls @ [CallGet md]))),
     List = (\<lambda>md (s, calls).
        case List r md s of (res, s') \<Rightarrow> (res, (s', calls @ [CallList md]))),
     Update = (\<lambda>new f (s, calls).
        case Update r new f s of (res, s') \<Rightarrow> (res, (s', calls @ [CallUpdate new]))),
     Destroy = (\<lambda>md (s, calls).
        case Destroy r md s of (res, s') \<Rightarrow> (res, (s', calls @ [CallDestroy md])))\<rparr>"

text \<open>
  The calls the loop makes once the dependencies are declared: no declaration, and no read
  but of a dependency declared as weak.
\<close>

fun loopCall :: "Constants \<Rightarrow> Call \<Rightarrow> bool" where
  "loopCall K (CallUpdateDependencies deps) = False"
| "loopCall K (CallGet md) =
     (\<exists>d\<in>set (dependencies K). Kind d = DependencyWeak \<and> Namespace d = Namespace_of md \<and>
        Type d = Type_of md \<and> ID d = Some (ID_of md))"
| "loopCall K _ = True"

text \<open>A log of calls grown by calls of the loop only.\<close>

definition extends :: "Constants \<Rightarrow> Call list \<Rightarrow> Call list \<Rightarrow> bool" where
  "extends K calls calls' \<longleftrightarrow> (\<exists>new. calls' = calls @ new \<and> list_all (loopCall K) new)"

subsection \<open>The contract of the resource graph\<close>

text \<open>The identities of the managed namespace: the manifests of the control plane namespace.\<close>

definition managed :: "Constants \<Rightarrow> Metadata \<Rightarrow> bool" where
  "managed K md \<longleftrightarrow>
     Namespace_of md = k8s_ControlPlaneNamespaceName K \<and> Type_of md = k8s_ManifestType K"

definition manifestMetadata :: "Constants \<Rightarrow> string \<Rightarrow> Metadata" where
  "manifestMetadata K ident = NewMetadata (k8s_ControlPlaneNamespaceName K) (k8s_ManifestType K) ident"

text \<open>The YAML a stored resource holds, if it is a manifest.\<close>

fun manifestYAML :: "Resource \<Rightarrow> bytes option" where
  "manifestYAML (Manifest _ yamlBytes) = Some yamlBytes"
| "manifestYAML _ = None"

text \<open>
  Modelled from the spec: the runtime is implemented outside the controller, and the
  controller relies on what the interface promises (External interfaces). \<open>view s\<close> is
  the content of the resource graph in state \<open>s\<close>, identity by identity. A call that
  returns no error has done what it was asked to:
  \<^item> \<^verbatim>\<open>Update\<close> has applied the mutator to the current resource, or to the new one it
    was given when there is none, and stored the result under that identity;
  \<^item> \<^verbatim>\<open>List\<close> with an empty id has returned the resources of the namespace and type
    asked for, and changed nothing;
  \<^item> \<^verbatim>\<open>Destroy\<close> has removed the identity.
  Nothing is promised about a call that returns an error.
\<close>

definition storeContract :: "'s Runtime \<Rightarrow> ('s \<Rightarrow> Metadata \<rightharpoonup> Resource) \<Rightarrow> bool" where
  "storeContract r view \<longleftrightarrow>
     (\<forall>new f s s'. Update r new f s = (None, s') \<longrightarrow>
        (\<exists>res. f (case view s (Metadata_of new) of None \<Rightarrow> new | Some cur \<Rightarrow> cur) = Inr res \<and>
               view s' = (view s)(Metadata_of new \<mapsto> res))) \<and>
     (\<forall>ns typ s items s'. List r (NewMetadata ns typ '''') s = (Inr items, s') \<longrightarrow>
        view s' = view s \<and>
        Metadata_of ` set items = {md \<in> dom (view s). Namespace_of md = ns \<and> Type_of md = typ}) \<and>
     (\<forall>md s s'. Destroy r md s = (None, s') \<longrightarrow> view s' = (view s)(md := None))"

text \<open>The identities and the content of the managed namespace in a view.\<close>

definition managedIDs :: "Constants \<Rightarrow> (Metadata \<rightharpoonup> Resource) \<Rightarrow> string set" where
  "managedIDs K v = ID_of ` {md \<in> dom v. managed K md}"

subsection \<open>An in-memory resource graph\<close>

text \<open>
  Modelled from the spec: a resource graph kept in memory, as a test would substitute for
  the real one. It holds the resources, the dependencies last declared, and a script of
  faults: every call takes the next entry of the script and, when it is an error, fails
  with it and leaves the resources alone. \<^verbatim>\<open>Get\<close> and \<^verbatim>\<open>Destroy\<close> of an identity that
  is not there fail with \<open>NotFound\<close>.
\<close>

record Store =
  resources :: "Resource list"
  registered :: "Dependency list"
  faults :: "error option list"

definition nextFault :: "Store \<Rightarrow> error option \<times> Store" where
  "nextFault s = (case faults s of [] \<Rightarrow> (None, s) | f # fs \<Rightarrow> (f, s\<lparr>faults := fs\<rparr>))"

definition lookup :: "Store \<Rightarrow> Metadata \<Rightarrow> Resource option" where
  "lookup s md = find (\<lambda>r. Metadata_of r = md) (resources s)"

definition storeUpdateDependencies :: "Dependency list \<Rightarrow> Store \<Rightarrow> error option \<times> Store" where
  "storeUpdateDependencies deps s =
    (case nextFault s of
       (Some err, s') \<Rightarrow> (Some err, s')
     | (None, s') \<Rightarrow> (None, s'\<lparr>registered := deps\<rparr>))"

definition storeGet :: "Metadata \<Rightarrow> Store \<Rightarrow> (error + Resource) \<times> Store" where
  "storeGet md s =
    (case nextFault s of
       (Some err, s') \<Rightarrow> (Inl err, s')
     | (None, s') \<Rightarrow>
        (case lookup s' md of None \<Rightarrow> (Inl NotFound, s') | Some res \<Rightarrow> (Inr res, s')))"

definition storeList :: "Metadata \<Rightarrow> Store \<Rightarrow> (error + Resource list) \<times> Store" where
  "storeList md s =
    (case nextFault s of
       (Some err, s') \<Rightarrow> (Inl err, s')
     | (None, s') \<Rightarrow>
        (Inr (filter (\<lambda>r. Namespace_of (Metadata_of r) = Namespace_of md \<and>
                           Type_of (Metadata_of r) = Type_of md) (resources s')), s'))"

definition storeUpdate :: "Resource \<Rightarrow> (Resource \<Rightarrow> error + Resource) \<Rightarrow> Store \<Rightarrow> error option \<times> Store" where
  "storeUpdate new f s =
    (case nextFault s of
       (Some err, s') \<Rightarrow> (Some err, s')
     | (None, s') \<Rightarrow>
        (case f (case lookup s' (Metadata_of new) of None \<Rightarrow> new | Some cur \<Rightarrow> cur) of
           Inl err \<Rightarrow> (Some err, s')
         | Inr res \<Rightarrow>
            if Metadata_of res \<noteq> Metadata_of new
            then (Some (Failure ''the mutator changed the identity''), s')
            else (None, s'\<lparr>resources :=
                    filter (\<lambda>r. Metadata_of r \<noteq> Metadata_of new) (resources s') @ [res]\<rparr>)))"

definition storeDestroy :: "Metadata \<Rightarrow> Store \<Rightarrow> error option \<times> Store" where
  "storeDestroy md s =
    (case nextFault s of
       (Some err, s') \<Rightarrow> (Some err, s')
     | (None, s') \<Rightarrow>
        (case lookup s' md of
           None \<Rightarrow> (Some NotFound, s')
         | Some _ \<Rightarrow> (None, s'\<lparr>resources := filter (\<lambda>r. Metadata_of r \<noteq> md) (resources s')\<rparr>)))"

definition store :: "Store Runtime" where
  "store = \<lparr>UpdateDependencies = storeUpdateDependencies, Get = storeGet, List = storeList,
            Update = storeUpdate, Destroy = storeDestroy\<rparr>"

subsection \<open>Inputs for the examples\<close>

definition exampleConstants :: Constants where
  "exampleConstants =
    \<lparr>config_NamespaceName = ''config'', config_K8sControlPlaneType = ''K8sControlPlane'',
     config_K8sManifestsID = ''manifests'', secrets_NamespaceName = ''secrets'',
     secrets_KubernetesType = ''Kubernetes'', secrets_KubernetesID = ''k8s'',
     k8s_ControlPlaneNamespaceName = ''controlplane'', k8s_ManifestType = ''Manifest''\<rparr>"

definition exampleTemplates :: Templates where
  "exampleTemplates =
    \<lparr>kubeletBootstrappingToken = ''token'', csrNodeBootstrapTemplate = ''csr-node'',
     csrApproverRoleBindingTemplate = ''csr-approver'', csrRenewalRoleBindingTemplate = ''csr-renewal'',
     kubeSystemSARoleBindingTemplate = ''sa'', podSecurityPolicy = ''psp'',
     kubeProxyTemplate = ''proxy'', kubeConfigInClusterTemplate = ''kubeconfig'',
     coreDNSTemplate = ''dns'', coreDNSSvcTemplate = ''dns-svc'',
     coreDNSv6SvcTemplate = ''dns-v6-svc'', flannelTemplate = ''flannel''\<rparr>"

text \<open>
  A small engine: an empty template does not parse, and executing a template appends the
  IPv6 address of the DNS service to its text.
\<close>

definition exampleEngine :: "string Engine" where
  "exampleEngine =
    \<lparr>Parse = (\<lambda>n text. if text = [] then Inl (Failure ''empty template'') else Inr text),
     Execute = (\<lambda>tmpl tc. Inr (tmpl @ DNSServiceIPv6 (tc_K8sManifestsSpec tc)))\<rparr>"

definition exampleConfig :: K8sManifestsSpec where
  "exampleConfig = \<lparr>DNSServiceIPv6 = ''fc00::a'', FlannelEnabled = False, TemplateFields = []\<rparr>"

definition exampleSecrets :: KubernetesSpec where
  "exampleSecrets = [(''BootstrapTokenID'', ''abcdef'')]"

text \<open>The two inputs as resources, and a manifest left over from an earlier cycle.\<close>

definition configResource :: Resource where
  "configResource = K8sControlPlane (NewMetadata ''config'' ''K8sControlPlane'' ''manifests'') exampleConfig"

definition secretsResource :: Resource where
  "secretsResource = Kubernetes (NewMetadata ''secrets'' ''Kubernetes'' ''k8s'') exampleSecrets"

definition staleManifest :: Resource where
  "staleManifest = Manifest (NewMetadata ''controlplane'' ''Manifest'' ''05-flannel'') ''flannel''"

text \<open>What the example engine renders from the example inputs.\<close>

definition exampleRendered :: "renderedManifest list" where
  "exampleRendered =
    [\<lparr>name = ''00-kubelet-bootstrapping-token'', data = ''tokenfc00::a''\<rparr>,
     \<lparr>name = ''01-csr-node-bootstrap'', data = ''csr-nodefc00::a''\<rparr>,
     \<lparr>name = ''01-csr-approver-role-binding'', data = ''csr-approverfc00::a''\<rparr>,
     \<lparr>name = ''01-csr-renewal-role-binding'', data = ''csr-renewalfc00::a''\<rparr>,
     \<lparr>name = ''02-kube-system-sa-role-binding'', data = ''safc00::a''\<rparr>,
     \<lparr>name = ''03-default-pod-security-policy'', data = ''pspfc00::a''\<rparr>,
     \<lparr>name = ''10-kube-proxy'', data = ''proxyfc00::a''\<rparr>,
     \<lparr>name = ''11-kube-config-in-cluster'', data = ''kubeconfigfc00::a''\<rparr>,
     \<lparr>name = ''11-core-dns'', data = ''dnsfc00::a''\<rparr>,
     \<lparr>name = ''11-core-dns-svc'', data = ''dns-svcfc00::a''\<rparr>,
     \<lparr>name = ''11-core-dns-v6-svc'', data = ''dns-v6-svcfc00::a''\<rparr>]"

definition exampleStore :: Store where
  "exampleStore = \<lparr>resources = [configResource, secretsResource, staleManifest], registered = [], faults = []\<rparr>"

definition convergedStore :: Store where
  "convergedStore =
    \<lparr>resources = [configResource, secretsResource] @
       map (\<lambda>m. Manifest (NewMetadata ''controlplane'' ''Manifest'' (name m)) (data m)) exampleRendered,
     registered = [], faults = []\<rparr>"

text \<open>Stores for the examples of teardown.\<close>

definition tornDownStore :: Store where
  "tornDownStore = \<lparr>resources = [configResource, secretsResource], registered = [], faults = []\<rparr>"

definition staleStore :: Store where
  "staleStore = \<lparr>resources = [staleManifest], registered = [], faults = []\<rparr>"

definition emptyStore :: Store where
  "emptyStore = \<lparr>resources = [], registered = [], faults = []\<rparr>"

text \<open>
  A store written to by someone else as well: right after every listing the resources
  it held are gone.
\<close>

definition racingStore :: "Store Runtime" where
  "racingStore =
    store\<lparr>List := (\<lambda>md s. case storeList md s of (res, s') \<Rightarrow> (res, s'\<lparr>resources := []\<rparr>))\<rparr>"

definition failingStore :: Store where
  "failingStore = \<lparr>resources = [staleManifest], registered = [],
                   faults = [None, None, Some (Failure ''store unavailable'')]\<rparr>"

definition absentStore :: Store where
  "absentStore = \<lparr>resources = [configResource, staleManifest], registered = [], faults = []\<rparr>"

definition configOnlyStore :: Store where
  "configOnlyStore = \<lparr>resources = [configResource], registered = [], faults = []\<rparr>"

text \<open>A store that rejects the declaration, and the calls of the example cycle.\<close>

definition rejectingStore :: Store where
  "rejectingStore = \<lparr>resources = [staleManifest], registered = [],
                     faults = [Some (Failure ''malformed dependency'')]\<rparr>"

definition exampleCalls :: "Call list" where
  "exampleCalls =
     map (\<lambda>m. CallUpdate (NewManifest exampleConstants (k8s_ControlPlaneNamespaceName exampleConstants) (name m)))
       exampleRendered @
     [CallList (manifestMetadata exampleConstants ''''),
      CallDestroy (manifestMetadata exampleConstants ''05-flannel'')]"

section \<open>Properties of the renderer\<close>

lemma render_example:
  "render exampleEngine exampleTemplates exampleConfig exampleSecrets = Inr exampleRendered"
  by (simp add: render_def manifestDescs_def defaultManifests_def exampleEngine_def
      exampleTemplates_def exampleConfig_def exampleRendered_def)

lemma renderAll_names:
  "renderAll E tc ds = Inr ms \<Longrightarrow> map name ms = map desc_name ds"
  by (induction ds arbitrary: ms) (auto split: sum.splits)

lemma manifestDescs_names:
  "map desc_name (manifestDescs T cfg) =
     [''00-kubelet-bootstrapping-token'', ''01-csr-node-bootstrap'',
      ''01-csr-approver-role-binding'', ''01-csr-renewal-role-binding'',
      ''02-kube-system-sa-role-binding'', ''03-default-pod-security-policy'',
      ''10-kube-proxy'', ''11-kube-config-in-cluster'', ''11-core-dns'', ''11-core-dns-svc'']
       @ (if DNSServiceIPv6 cfg \<noteq> [] then [''11-core-dns-v6-svc''] else [])
       @ (if FlannelEnabled cfg then [''05-flannel''] else [])"
  by (simp add: manifestDescs_def defaultManifests_def Let_def)

lemma render_names:
  "render E T cfg scrt = Inr ms \<Longrightarrow> map name ms = map desc_name (manifestDescs T cfg)"
  unfolding render_def Let_def by (rule renderAll_names)

lemma render_distinct:
  assumes "render E T cfg scrt = Inr ms"
  shows "distinct (map name ms)"
  unfolding render_names [OF assms] manifestDescs_names by simp

text \<open>
  C10. Whenever \<^verbatim>\<open>render\<close> succeeds, the list it returns is not empty, starts with the ten
  default manifests, and no name occurs in it twice.
\<close>

theorem render_nonempty_distinct:
  assumes "render E T cfg scrt = Inr manifests"
  shows "manifests \<noteq> [] \<and>
         take 10 (map name manifests) =
           [''00-kubelet-bootstrapping-token'', ''01-csr-node-bootstrap'',
            ''01-csr-approver-role-binding'', ''01-csr-renewal-role-binding'',
            ''02-kube-system-sa-role-binding'', ''03-default-pod-security-policy'',
            ''10-kube-proxy'', ''11-kube-config-in-cluster'', ''11-core-dns'', ''11-core-dns-svc''] \<and>
         distinct (map name manifests)"
proof -
  have n: "map name manifests = map desc_name (manifestDescs T cfg)"
    using assms by (rule render_names)
  have "manifests \<noteq> []"
    using n unfolding manifestDescs_names by auto
  moreover have "take 10 (map name manifests) =
           [''00-kubelet-bootstrapping-token'', ''01-csr-node-bootstrap'',
            ''01-csr-approver-role-binding'', ''01-csr-renewal-role-binding'',
            ''02-kube-system-sa-role-binding'', ''03-default-pod-security-policy'',
            ''10-kube-proxy'', ''11-kube-config-in-cluster'', ''11-core-dns'', ''11-core-dns-svc'']"
    unfolding n manifestDescs_names by simp
  moreover have "distinct (map name manifests)"
    using assms by (rule render_distinct)
  ultimately show ?thesis by simp
qed

theorem render_nonempty_distinct_witness:
  "render exampleEngine exampleTemplates exampleConfig exampleSecrets = Inr exampleRendered \<and>
   exampleRendered \<noteq> [] \<and> length exampleRendered = 11 \<and> distinct (map name exampleRendered)"
  using render_nonempty_distinct [OF render_example] render_example
  by (simp add: exampleRendered_def)

text \<open>
  C7. Which optional manifests are rendered is decided inside \<^verbatim>\<open>render\<close> from the
  configuration alone: the IPv6 DNS service is in the list exactly when
  \<^verbatim>\<open>DNSServiceIPv6\<close> is not empty, flannel exactly when \<^verbatim>\<open>FlannelEnabled\<close> is set, and
  the ten default manifests are always there.
\<close>

theorem render_conditional:
  assumes "render E T cfg scrt = Inr manifests"
  shows "(''11-core-dns-v6-svc'' \<in> set (map name manifests) \<longleftrightarrow> DNSServiceIPv6 cfg \<noteq> '''') \<and>
         (''05-flannel'' \<in> set (map name manifests) \<longleftrightarrow> FlannelEnabled cfg) \<and>
         set [''00-kubelet-bootstrapping-token'', ''01-csr-node-bootstrap'',
            ''01-csr-approver-role-binding'', ''01-csr-renewal-role-binding'',
            ''02-kube-system-sa-role-binding'', ''03-default-pod-security-policy'',
            ''10-kube-proxy'', ''11-kube-config-in-cluster'', ''11-core-dns'', ''11-core-dns-svc'']
           \<subseteq> set (map name manifests)"
proof -
  have n: "map name manifests = map desc_name (manifestDescs T cfg)"
    using assms by (rule render_names)
  show ?thesis
    unfolding n manifestDescs_names by simp
qed

theorem render_conditional_witness:
  "render exampleEngine exampleTemplates exampleConfig exampleSecrets = Inr exampleRendered \<and>
   ''11-core-dns-v6-svc'' \<in> set (map name exampleRendered) \<and>
   ''05-flannel'' \<notin> set (map name exampleRendered) \<and>
   DNSServiceIPv6 exampleConfig \<noteq> '''' \<and> \<not> FlannelEnabled exampleConfig"
  using render_conditional [OF render_example] render_example
  by (simp add: exampleConfig_def)

subsection \<open>Determinism of the renderer\<close>





section \<open>Properties of the cycle\<close>

subsection \<open>The map of a cycle\<close>

lemma set_fold_mapStore:
  "set (fold (\<lambda>x m. mapStore (g x) m) xs acc) = set acc \<union> g ` set xs"
  by (induction xs arbitrary: acc) (auto simp: mapStore_def)

lemma set_fold_mapDelete:
  "set (fold (\<lambda>x m. mapDelete (g x) m) xs acc) = set acc - g ` set xs"
  by (induction xs arbitrary: acc) (auto simp: mapDelete_def)

lemma manifestsToDelete_set:
  "set (manifestsToDelete items D) = (\<lambda>r. ID_of (Metadata_of r)) ` set items - name ` set D"
  by (simp add: manifestsToDelete_def set_fold_mapStore set_fold_mapDelete)

lemma rangeOrder_mset: "mset (rangeOrder cs m) = mset m"
proof (induction cs m rule: rangeOrder.induct)
  case (3 c cs k m)
  let ?xs = "k # m"
  let ?i = "c mod length ?xs"
  have i: "?i < length ?xs" by simp
  have "mset ?xs = mset (take ?i ?xs @ ?xs ! ?i # drop (Suc ?i) ?xs)"
    using id_take_nth_drop [OF i] by simp
  then show ?case using 3 by (simp add: Let_def del: take_Cons' drop_Suc_Cons mod_Suc_eq)
qed simp_all

lemma rangeOrder_set: "set (rangeOrder cs m) = set m"
  using rangeOrder_mset [of cs m] by (metis set_mset_mset)

text \<open>No order of the keys is left out: each one is what some sequence of choices gives.\<close>

lemma rangeOrder_complete:
  "mset ys = mset xs \<Longrightarrow> \<exists>cs. rangeOrder cs xs = ys"
proof (induction ys arbitrary: xs)
  case Nil
  then show ?case by (intro exI [of _ "[]"]) simp
next
  case (Cons y ys)
  then have "y \<in> set xs" by (metis list.set_intros(1) set_mset_mset)
  then obtain i where i: "i < length xs" "xs ! i = y" by (auto simp: in_set_conv_nth)
  then obtain k m where xs: "xs = k # m" by (cases xs) auto
  let ?rest = "take i xs @ drop (Suc i) xs"
  have "mset xs = mset (take i xs @ xs ! i # drop (Suc i) xs)"
    using id_take_nth_drop [OF i(1)] by simp
  then have "mset ys = mset ?rest" using Cons.prems i(2) by simp
  from Cons.IH [OF this] obtain cs where cs: "rangeOrder cs ?rest = ys" by blast
  have "i mod length xs = i" using i(1) by simp
  then have "rangeOrder (i # cs) xs = y # ys"
    using cs i(2) unfolding xs by (simp add: Let_def del: take_Cons' drop_Suc_Cons mod_Suc_eq)
  then show ?case by blast
qed

subsection \<open>What the contract gives\<close>

lemma Metadata_of_NewManifest [simp]:
  "Metadata_of (NewManifest K (k8s_ControlPlaneNamespaceName K) n) = manifestMetadata K n"
  by (simp add: NewManifest_def manifestMetadata_def)

lemma setManifestYAML_Inr:
  "setManifestYAML y cur = Inr res \<Longrightarrow> manifestYAML res = Some y"
  by (cases cur) (auto simp: setManifestYAML_def SetYAML_def)

lemma manifestMetadata_inj [simp]: "manifestMetadata K a = manifestMetadata K b \<longleftrightarrow> a = b"
  by (simp add: manifestMetadata_def)

lemma contract_Update:
  assumes "storeContract r view" "Update r new f s = (None, s')"
  shows "\<exists>res. f (case view s (Metadata_of new) of None \<Rightarrow> new | Some cur \<Rightarrow> cur) = Inr res \<and>
               view s' = (view s)(Metadata_of new \<mapsto> res)"
proof -
  from assms(1) have "\<forall>new f s s'. Update r new f s = (None, s') \<longrightarrow>
        (\<exists>res. f (case view s (Metadata_of new) of None \<Rightarrow> new | Some cur \<Rightarrow> cur) = Inr res \<and>
               view s' = (view s)(Metadata_of new \<mapsto> res))"
    unfolding storeContract_def by (rule conjunct1)
  then show ?thesis using assms(2) by (elim allE impE) 
qed

lemma contract_List:
  assumes "storeContract r view" "List r (NewMetadata ns typ []) s = (Inr items, s')"
  shows "view s' = view s \<and> Metadata_of ` set items = {md \<in> dom (view s). Namespace_of md = ns \<and> Type_of md = typ}"
proof -
  from assms(1) have "\<forall>ns typ s items s'. List r (NewMetadata ns typ '''') s = (Inr items, s') \<longrightarrow>
        view s' = view s \<and>
        Metadata_of ` set items = {md \<in> dom (view s). Namespace_of md = ns \<and> Type_of md = typ}"
    unfolding storeContract_def by (elim conjE)
  then show ?thesis using assms(2) by (elim allE impE)
qed

lemma contract_Destroy:
  assumes "storeContract r view" "Destroy r md s = (None, s')"
  shows "view s' = (view s)(md := None)"
proof -
  from assms(1) have "\<forall>md s s'. Destroy r md s = (None, s') \<longrightarrow> view s' = (view s)(md := None)"
    unfolding storeContract_def by (elim conjE)
  then show ?thesis using assms(2) by (elim allE impE)
qed

lemma updateManifests_view:
  assumes c: "storeContract r view"
  shows "updateManifests K r D s = (None, s') \<Longrightarrow>
      dom (view s') = dom (view s) \<union> manifestMetadata K ` name ` set D \<and>
      (\<forall>md. md \<notin> manifestMetadata K ` name ` set D \<longrightarrow> view s' md = view s md) \<and>
      (distinct (map name D) \<longrightarrow>
         (\<forall>m\<in>set D. \<exists>res. view s' (manifestMetadata K (name m)) = Some res \<and> manifestYAML res = Some (data m)))"
proof (induction D arbitrary: s)
  case Nil
  then show ?case by simp
next
  case (Cons m D)
  from Cons.prems obtain s1 where
    u: "Update r (NewManifest K (k8s_ControlPlaneNamespaceName K) (name m)) (setManifestYAML (data m)) s = (None, s1)"
    and rest: "updateManifests K r D s1 = (None, s')"
    by (auto split: prod.splits option.splits)
  from contract_Update [OF c u] obtain res where
    res: "manifestYAML res = Some (data m)" and v1: "view s1 = (view s)(manifestMetadata K (name m) \<mapsto> res)"
    by (auto dest: setManifestYAML_Inr)
  note IH = Cons.IH [OF rest]
  have d: "dom (view s') = dom (view s) \<union> manifestMetadata K ` name ` set (m # D)"
    using IH v1 by auto
  have o: "\<forall>md. md \<notin> manifestMetadata K ` name ` set (m # D) \<longrightarrow> view s' md = view s md"
    using IH v1 by auto
  have p: "distinct (map name (m # D)) \<longrightarrow>
         (\<forall>m'\<in>set (m # D). \<exists>res. view s' (manifestMetadata K (name m')) = Some res \<and> manifestYAML res = Some (data m'))"
  proof (intro impI ballI)
    fix m' assume dist: "distinct (map name (m # D))" and m': "m' \<in> set (m # D)"
    show "\<exists>res. view s' (manifestMetadata K (name m')) = Some res \<and> manifestYAML res = Some (data m')"
    proof (cases "m' \<in> set D")
      case True
      then show ?thesis using IH dist by auto
    next
      case False
      then have [simp]: "m' = m" using m' by simp
      have "manifestMetadata K (name m) \<notin> manifestMetadata K ` name ` set D" using dist by auto
      then have "view s' (manifestMetadata K (name m)) = view s1 (manifestMetadata K (name m))"
        using IH by blast
      then show ?thesis using v1 res by simp
    qed
  qed
  from d o p show ?case by blast
qed

lemma destroyManifests_view:
  assumes c: "storeContract r view"
  shows "destroyManifests K r ids s = (None, s') \<Longrightarrow>
      view s' = (\<lambda>md. if md \<in> manifestMetadata K ` set ids then None else view s md)"
proof (induction ids arbitrary: s)
  case Nil
  then show ?case by simp
next
  case (Cons i ids)
  from Cons.prems obtain s1 where
    d: "Destroy r (manifestMetadata K i) s = (None, s1)"
    and rest: "destroyManifests K r ids s1 = (None, s')"
    by (auto simp: manifestMetadata_def split: prod.splits option.splits)
  show ?case
    unfolding Cons.IH [OF rest] contract_Destroy [OF c d] by (rule ext) simp
qed

lemma destroyItems_view:
  assumes c: "storeContract r view"
  shows "destroyItems r items s = (None, s') \<Longrightarrow>
      view s' = (\<lambda>md. if md \<in> Metadata_of ` set items then None else view s md)"
proof (induction items arbitrary: s)
  case Nil
  then show ?case by simp
next
  case (Cons i items)
  from Cons.prems obtain s1 where
    d: "Destroy r (Metadata_of i) s = (None, s1)"
    and rest: "destroyItems r items s1 = (None, s')"
    by (auto split: prod.splits option.splits)
  show ?case
    unfolding Cons.IH [OF rest] contract_Destroy [OF c d] by (rule ext) simp
qed

subsection \<open>The in-memory resource graph keeps the contract\<close>

lemma find_filter_neq:
  "find (\<lambda>r. g r = md) (filter (\<lambda>r. g r \<noteq> k) xs) = (if md = k then None else find (\<lambda>r. g r = md) xs)"
  by (induction xs) auto

lemma find_append':
  "find P (xs @ ys) = (case find P xs of None \<Rightarrow> find P ys | Some x \<Rightarrow> Some x)"
  by (induction xs) auto

lemma dom_lookup: "dom (lookup s) = Metadata_of ` set (resources s)"
  by (auto simp: lookup_def dom_def find_None_iff)

lemma nextFault_resources: "nextFault s = (f, s') \<Longrightarrow> resources s' = resources s"
  by (auto simp: nextFault_def split: list.splits)

lemma nextFault_lookup: "nextFault s = (f, s') \<Longrightarrow> lookup s' = lookup s"
  by (rule ext) (simp add: lookup_def nextFault_resources)

lemma storeUpdate_ok:
  assumes "storeUpdate new f s = (None, s')"
  shows "\<exists>res. f (case lookup s (Metadata_of new) of None \<Rightarrow> new | Some cur \<Rightarrow> cur) = Inr res \<and>
               lookup s' = (lookup s)(Metadata_of new \<mapsto> res)"
proof -
  obtain flt s0 where nf: "nextFault s = (flt, s0)" by (cases "nextFault s")
  note l0 = nextFault_lookup [OF nf]
  from assms nf obtain res where
    f: "f (case lookup s0 (Metadata_of new) of None \<Rightarrow> new | Some cur \<Rightarrow> cur) = Inr res"
    and md: "Metadata_of res = Metadata_of new"
    and s': "s' = s0\<lparr>resources := filter (\<lambda>r. Metadata_of r \<noteq> Metadata_of new) (resources s0) @ [res]\<rparr>"
    by (auto simp: storeUpdate_def split: option.splits sum.splits if_splits)
  have "lookup s' = (lookup s0)(Metadata_of new \<mapsto> res)"
    using md by (intro ext) (auto simp: s' lookup_def find_append' find_filter_neq split: option.splits)
  then show ?thesis using f l0 by auto
qed

lemma storeList_ok:
  assumes "storeList (NewMetadata ns typ []) s = (Inr items, s')"
  shows "lookup s' = lookup s \<and>
         Metadata_of ` set items = {md \<in> dom (lookup s). Namespace_of md = ns \<and> Type_of md = typ}"
proof -
  obtain flt s0 where nf: "nextFault s = (flt, s0)" by (cases "nextFault s")
  from assms nf have s': "s' = s0"
    and items: "items = filter (\<lambda>r. Namespace_of (Metadata_of r) = ns \<and> Type_of (Metadata_of r) = typ) (resources s0)"
    by (auto simp: storeList_def split: option.splits)
  have "Metadata_of ` set items = {md \<in> dom (lookup s0). Namespace_of md = ns \<and> Type_of md = typ}"
    unfolding items dom_lookup by auto
  then show ?thesis using nextFault_lookup [OF nf] s' by simp
qed

lemma storeDestroy_ok:
  assumes "storeDestroy md s = (None, s')"
  shows "lookup s' = (lookup s)(md := None)"
proof -
  obtain flt s0 where nf: "nextFault s = (flt, s0)" by (cases "nextFault s")
  from assms nf have s': "s' = s0\<lparr>resources := filter (\<lambda>r. Metadata_of r \<noteq> md) (resources s0)\<rparr>"
    by (auto simp: storeDestroy_def split: option.splits)
  have "lookup s' = (lookup s0)(md := None)"
    by (rule ext) (simp add: s' lookup_def find_filter_neq)
  then show ?thesis using nextFault_lookup [OF nf] by simp
qed

lemma store_contract: "storeContract store lookup"
  unfolding storeContract_def
proof (intro conjI allI impI)
  fix new f s s' assume "Update store new f s = (None, s')"
  then show "\<exists>res. f (case lookup s (Metadata_of new) of None \<Rightarrow> new | Some cur \<Rightarrow> cur) = Inr res \<and>
               lookup s' = (lookup s)(Metadata_of new \<mapsto> res)"
    by (simp add: store_def storeUpdate_ok)
next
  fix ns ty s its s'
  assume "List store (NewMetadata ns ty []) s = (Inr its, s')"
  then have "storeList (NewMetadata ns ty []) s = (Inr its, s')" by (simp add: store_def)
  from storeList_ok [OF this]
  show "lookup s' = lookup s"
    and "Metadata_of ` set its = {md \<in> dom (lookup s). Namespace_of md = ns \<and> Type_of md = ty}"
    by simp_all
next
  fix md s s' assume "Destroy store md s = (None, s')"
  then show "lookup s' = (lookup s)(md := None)"
    by (simp add: store_def storeDestroy_ok)
qed

subsection \<open>Convergence\<close>

lemma managed_manifestMetadata [simp]: "managed K (manifestMetadata K n)"
  by (simp add: managed_def manifestMetadata_def)

lemma ID_of_manifestMetadata [simp]: "ID_of (manifestMetadata K n) = n"
  by (simp add: manifestMetadata_def)

lemma managed_eq: "managed K md \<Longrightarrow> manifestMetadata K (ID_of md) = md"
  by (cases md) (simp add: managed_def manifestMetadata_def)

lemma converge_view:
  assumes c: "storeContract r view"
      and run: "converge K r order D s = (None, s')"
  shows "managedIDs K (view s') = name ` set D"
    and "distinct (map name D) \<Longrightarrow> m \<in> set D \<Longrightarrow>
           \<exists>res. view s' (manifestMetadata K (name m)) = Some res \<and> manifestYAML res = Some (data m)"
proof -
  from run obtain s1 its s2 where
    u: "updateManifests K r D s = (None, s1)"
    and l: "List r (NewMetadata (k8s_ControlPlaneNamespaceName K) (k8s_ManifestType K) []) s1 = (Inr its, s2)"
    and d: "destroyManifests K r (rangeOrder order (manifestsToDelete its D)) s2 = (None, s')"
    by (auto simp: converge_def split: prod.splits option.splits sum.splits)
  let ?dels = "set (rangeOrder order (manifestsToDelete its D))"
  have dels: "?dels = (\<lambda>r. ID_of (Metadata_of r)) ` set its - name ` set D"
    by (simp add: rangeOrder_set manifestsToDelete_set)
  note U = updateManifests_view [OF c u]
  from contract_List [OF c l] have v2: "view s2 = view s1"
    and its: "Metadata_of ` set its = {md \<in> dom (view s1). managed K md}"
    by (simp_all add: managed_def)
  have v': "view s' = (\<lambda>md. if md \<in> manifestMetadata K ` ?dels then None else view s1 md)"
    unfolding destroyManifests_view [OF c d] v2 by (rule refl)
  have keep: "manifestMetadata K (name m) \<notin> manifestMetadata K ` ?dels" if "m \<in> set D" for m
  proof -
    have "name m \<notin> ?dels" using that unfolding dels by blast
    then show ?thesis by (auto simp del: set_map)
  qed
  have present: "manifestMetadata K (name m) \<in> dom (view s1)" if "m \<in> set D" for m
    using U that by auto
  have "{md \<in> dom (view s'). managed K md} = manifestMetadata K ` name ` set D"
  proof (intro set_eqI iffI)
    fix md assume "md \<in> {md \<in> dom (view s'). managed K md}"
    then have in1: "md \<in> dom (view s1)" and nd: "md \<notin> manifestMetadata K ` ?dels" and mg: "managed K md"
      unfolding v' by (auto split: if_splits)
    from in1 mg its have "md \<in> Metadata_of ` set its" by simp
    then have "ID_of md \<in> (\<lambda>r. ID_of (Metadata_of r)) ` set its" by auto
    moreover from nd managed_eq [OF mg] have "ID_of md \<notin> ?dels" by (metis imageI)
    ultimately have "ID_of md \<in> name ` set D" unfolding dels by simp
    then show "md \<in> manifestMetadata K ` name ` set D"
      using managed_eq [OF mg] by (metis imageI)
  next
    fix md assume "md \<in> manifestMetadata K ` name ` set D"
    then obtain m where m: "m \<in> set D" and md: "md = manifestMetadata K (name m)" by auto
    show "md \<in> {md \<in> dom (view s'). managed K md}"
      using keep [OF m] present [OF m] unfolding md v' by (auto simp: dom_def)
  qed
  then show "managedIDs K (view s') = name ` set D"
    unfolding managedIDs_def by (simp add: image_image)
  show "\<exists>res. view s' (manifestMetadata K (name m)) = Some res \<and> manifestYAML res = Some (data m)"
    if "distinct (map name D)" "m \<in> set D"
    using U that keep [OF that(2)] unfolding v' by auto
qed

text \<open>
  C1. Over any runtime that keeps the contract, whatever the managed namespace held
  before: when the manifests \<open>D\<close> that \<^verbatim>\<open>render\<close> returned have been written, the namespace
  listed and the rest destroyed, all without an error, the identities of the managed
  namespace are exactly the names in \<open>D\<close>, and under each name is stored the payload
  \<open>D\<close> has for it. The order in which the map is ranged over does not matter.
\<close>

theorem converge_exact:
  assumes "storeContract r view"
      and "render E T cfg scrt = Inr D"
      and "converge K r order D s = (None, s')"
  shows "managedIDs K (view s') = set (map name D) \<and>
         (\<forall>m\<in>set D. \<exists>res. view s' (manifestMetadata K (name m)) = Some res \<and>
                              manifestYAML res = Some (data m))"
  using converge_view [OF assms(1,3)] render_distinct [OF assms(2)] by auto

lemma converge_example:
  "converge exampleConstants store [] exampleRendered exampleStore = (None, convergedStore)"
  by (simp add: converge_def store_def storeUpdate_def storeList_def storeDestroy_def nextFault_def
      lookup_def exampleStore_def convergedStore_def exampleRendered_def exampleConstants_def
      configResource_def secretsResource_def staleManifest_def NewManifest_def
      setManifestYAML_def SetYAML_def manifestsToDelete_def mapStore_def mapDelete_def)

lemma lookup_example:
  "lookup exampleStore (manifestMetadata exampleConstants ''05-flannel'') = Some staleManifest"
  "lookup convergedStore (manifestMetadata exampleConstants ''05-flannel'') = None"
  by (simp_all add: lookup_def exampleStore_def convergedStore_def exampleRendered_def
      manifestMetadata_def exampleConstants_def configResource_def secretsResource_def
      staleManifest_def)

theorem converge_exact_witness:
  "storeContract store lookup \<and>
   render exampleEngine exampleTemplates exampleConfig exampleSecrets = Inr exampleRendered \<and>
   converge exampleConstants store [] exampleRendered exampleStore = (None, convergedStore) \<and>
   lookup exampleStore (manifestMetadata exampleConstants ''05-flannel'') = Some staleManifest \<and>
   lookup convergedStore (manifestMetadata exampleConstants ''05-flannel'') = None \<and>
   managedIDs exampleConstants (lookup convergedStore) = set (map name exampleRendered)"
  using converge_exact [OF store_contract render_example converge_example]
    store_contract render_example converge_example lookup_example
  by simp

subsection \<open>Teardown\<close>

lemma teardownAll_view:
  assumes c: "storeContract r view"
      and run: "teardownAll K r s = (None, s')"
  shows "managedIDs K (view s') = {}"
proof -
  from run obtain its s0 where
    l: "List r (NewMetadata (k8s_ControlPlaneNamespaceName K) (k8s_ManifestType K) []) s = (Inr its, s0)"
    and d: "destroyItems r its s0 = (None, s')"
    by (auto simp: teardownAll_def split: prod.splits sum.splits)
  from contract_List [OF c l] have v0: "view s0 = view s"
    and its: "Metadata_of ` set its = {md \<in> dom (view s). managed K md}"
    by (simp_all add: managed_def)
  have "{md \<in> dom (view s'). managed K md} = {}"
    unfolding destroyItems_view [OF c d] v0 using its by (auto split: if_splits)
  then show ?thesis by (simp add: managedIDs_def)
qed

lemma teardownAll_on_empty:
  assumes c: "storeContract r view"
      and e: "managedIDs K (view s) = {}"
      and l: "List r (NewMetadata (k8s_ControlPlaneNamespaceName K) (k8s_ManifestType K) []) s = (Inr its, s0)"
  shows "teardownAll K r s = (None, s0)" and "view s0 = view s"
proof -
  from contract_List [OF c l] have v0: "view s0 = view s"
    and its: "Metadata_of ` set its = {md \<in> dom (view s). managed K md}"
    by (simp_all add: managed_def)
  from e have "{md \<in> dom (view s). managed K md} = {}" by (simp add: managedIDs_def)
  with its have "set its = {}" by (simp only: image_is_empty)
  then have "its = []" by simp
  then show "teardownAll K r s = (None, s0)" using l by (simp add: teardownAll_def)
  show "view s0 = view s" by (rule v0)
qed

text \<open>
  C5. Over any runtime that keeps the contract, and whatever the managed namespace holds:
  a teardown that returns no error leaves the managed namespace empty; a second teardown
  right after it changes nothing; and on a namespace that is already empty teardown
  returns \<^verbatim>\<open>nil\<close> as soon as the listing is answered, without destroying anything.
\<close>

theorem teardownAll_idempotent:
  assumes "storeContract r view"
  shows "(teardownAll K r s = (None, s') \<longrightarrow> managedIDs K (view s') = {}) \<and>
         (teardownAll K r s = (None, s') \<and> teardownAll K r s' = (None, s'') \<longrightarrow>
            view s'' = view s' \<and> managedIDs K (view s'') = {}) \<and>
         (managedIDs K (view s) = {} \<and>
          List r (NewMetadata (k8s_ControlPlaneNamespaceName K) (k8s_ManifestType K) '''') s = (Inr items, s0) \<longrightarrow>
            teardownAll K r s = (None, s0) \<and> view s0 = view s)"
proof (intro conjI impI)
  assume "teardownAll K r s = (None, s')"
  then show "managedIDs K (view s') = {}" by (rule teardownAll_view [OF assms])
next
  assume a: "teardownAll K r s = (None, s') \<and> teardownAll K r s' = (None, s'')"
  then have e: "managedIDs K (view s') = {}" using teardownAll_view [OF assms, of K s s'] by simp
  from a obtain its s0 where
    l: "List r (NewMetadata (k8s_ControlPlaneNamespaceName K) (k8s_ManifestType K) []) s' = (Inr its, s0)"
    by (auto simp: teardownAll_def split: prod.splits sum.splits)
  from teardownAll_on_empty [OF assms e l] a show "view s'' = view s'" by simp
  from a show "managedIDs K (view s'') = {}" using teardownAll_view [OF assms, of K s' s''] by simp
next
  assume a: "managedIDs K (view s) = {} \<and>
          List r (NewMetadata (k8s_ControlPlaneNamespaceName K) (k8s_ManifestType K) '''') s = (Inr items, s0)"
  then show "teardownAll K r s = (None, s0)" and "view s0 = view s"
    using teardownAll_on_empty [OF assms, of K s items s0] by simp_all
qed

lemma teardownAll_example:
  "teardownAll exampleConstants store exampleStore =
     (None, tornDownStore)"
  "teardownAll exampleConstants store tornDownStore =
     (None, tornDownStore)"
  "List store (NewMetadata (k8s_ControlPlaneNamespaceName exampleConstants) (k8s_ManifestType exampleConstants) '''')
      tornDownStore =
     (Inr [], tornDownStore)"
  by (simp_all add: teardownAll_def store_def storeList_def storeDestroy_def nextFault_def lookup_def
      exampleStore_def tornDownStore_def exampleConstants_def configResource_def secretsResource_def
      staleManifest_def)

theorem teardownAll_idempotent_witness:
  "storeContract store lookup \<and>
   teardownAll exampleConstants store exampleStore =
     (None, tornDownStore) \<and>
   teardownAll exampleConstants store tornDownStore =
     (None, tornDownStore) \<and>
   managedIDs exampleConstants (lookup tornDownStore) = {}"
  using teardownAll_idempotent [OF store_contract, of exampleConstants exampleStore
      tornDownStore
      tornDownStore]
    store_contract teardownAll_example
  by simp

lemma destroyItems_append_error:
  assumes "destroyItems r pre s0 = (None, s1)"
      and "Destroy r (Metadata_of manifest) s1 = (Some err, s2)"
  shows "destroyItems r (pre @ manifest # rest) s0 =
           (Some (Errorf ''error destroying manifest: %w'' [] err), s2)"
  using assms
  by (induction pre arbitrary: s0) (auto split: prod.splits option.splits)

text \<open>
  C2, as the code has it. Teardown tolerates no error of \<^verbatim>\<open>Destroy\<close>: the first
  \<^verbatim>\<open>Destroy\<close> that returns an error, the store's not-found error included, ends
  teardown, the manifests after it are left alone, and the error is returned wrapped as
  "error destroying manifest", where \<^verbatim>\<open>IsNotFoundError\<close> still recognises it.
\<close>

theorem teardownAll_returns_Destroy_error:
  assumes "List r (NewMetadata (k8s_ControlPlaneNamespaceName K) (k8s_ManifestType K) '''') s =
             (Inr (pre @ manifest # rest), s0)"
      and "destroyItems r pre s0 = (None, s1)"
      and "Destroy r (Metadata_of manifest) s1 = (Some err, s2)"
  shows "teardownAll K r s = (Some (Errorf ''error destroying manifest: %w'' [] err), s2) \<and>
         IsNotFoundError (Errorf ''error destroying manifest: %w'' [] err) = IsNotFoundError err"
  using assms(1) destroyItems_append_error [OF assms(2,3)]
  by (simp add: teardownAll_def)

text \<open>
  Another writer empties the namespace between the listing and the first \<^verbatim>\<open>Destroy\<close>. The
  store answers the \<^verbatim>\<open>Destroy\<close> of the identity that is no longer there with its
  not-found error, and teardown does not pass over the error: it returns it.
\<close>

theorem teardownAll_NotFound_counterexample:
  "teardownAll exampleConstants racingStore staleStore =
     (Some (Errorf ''error destroying manifest: %w'' [] NotFound), emptyStore)"
  by (simp add: teardownAll_def racingStore_def store_def storeList_def storeDestroy_def nextFault_def
      lookup_def staleStore_def emptyStore_def exampleConstants_def staleManifest_def)

lemma racing_example:
  "List racingStore (NewMetadata (k8s_ControlPlaneNamespaceName exampleConstants) (k8s_ManifestType exampleConstants) '''')
      staleStore = (Inr ([] @ staleManifest # []), emptyStore)"
  "destroyItems racingStore [] emptyStore = (None, emptyStore)"
  "Destroy racingStore (Metadata_of staleManifest) emptyStore = (Some NotFound, emptyStore)"
  by (simp_all add: racingStore_def store_def storeList_def storeDestroy_def nextFault_def lookup_def
      staleStore_def emptyStore_def exampleConstants_def staleManifest_def)

theorem teardownAll_returns_Destroy_error_witness:
  "List racingStore (NewMetadata (k8s_ControlPlaneNamespaceName exampleConstants) (k8s_ManifestType exampleConstants) '''')
      staleStore = (Inr ([] @ staleManifest # []), emptyStore) \<and>
   destroyItems racingStore [] emptyStore = (None, emptyStore) \<and>
   Destroy racingStore (Metadata_of staleManifest) emptyStore = (Some NotFound, emptyStore) \<and>
   teardownAll exampleConstants racingStore staleStore =
     (Some (Errorf ''error destroying manifest: %w'' [] NotFound), emptyStore) \<and>
   IsNotFoundError (Errorf ''error destroying manifest: %w'' [] NotFound)"
  using teardownAll_returns_Destroy_error [OF racing_example] racing_example
  by simp

subsection \<open>Absent inputs\<close>

lemma onGetError_NotFound:
  assumes "IsNotFoundError err"
  shows "onGetError K r err s1 =
          (case teardownAll K r s1 of
             (Some err', s2) \<Rightarrow> (Some (Errorf ''error tearing down: %w'' [] err'), s2)
           | (None, s2) \<Rightarrow> (None, s2))"
  using assms by (simp add: onGetError_def)

lemma cycle_absent:
  assumes "Get r (NewMetadata (config_NamespaceName K) (config_K8sControlPlaneType K) (config_K8sManifestsID K)) s = (Inl err, s1) \<or>
            (\<exists>md config s0.
               Get r (NewMetadata (config_NamespaceName K) (config_K8sControlPlaneType K) (config_K8sManifestsID K)) s = (Inr (K8sControlPlane md config), s0) \<and>
               Get r (NewMetadata (secrets_NamespaceName K) (secrets_KubernetesType K) (secrets_KubernetesID K)) s0 = (Inl err, s1))"
  shows "cycle K E T r order s = onGetError K r err s1"
  using assms by (auto simp: cycle_def)

text \<open>
  C3, as the code has it. In a cycle whose read of the configuration returns a not-found
  error, and likewise in one whose read of the secrets does after the configuration was read,
  teardown is invoked. When teardown returns no error the managed namespace ends empty and
  the loop goes back to its \<^verbatim>\<open>select\<close>; when teardown returns an error, \<^verbatim>\<open>Run\<close> returns
  it wrapped as "error tearing down".
\<close>

theorem absent_input_tears_down:
  assumes "storeContract r view"
      and "IsNotFoundError err"
      and "Get r (NewMetadata (config_NamespaceName K) (config_K8sControlPlaneType K) (config_K8sManifestsID K)) s = (Inl err, s1) \<or>
            (\<exists>md config s0.
               Get r (NewMetadata (config_NamespaceName K) (config_K8sControlPlaneType K) (config_K8sManifestsID K)) s = (Inr (K8sControlPlane md config), s0) \<and>
               Get r (NewMetadata (secrets_NamespaceName K) (secrets_KubernetesType K) (secrets_KubernetesID K)) s0 = (Inl err, s1))"
  shows "(teardownAll K r s1 = (None, s2) \<longrightarrow>
            managedIDs K (view s2) = {} \<and>
            cycle K E T r order s = (None, s2) \<and>
            loop K E T r (Event order # signals) s = loop K E T r signals s2 \<and>
            loop K E T r [Event order] s = (Waiting, s2)) \<and>
         (teardownAll K r s1 = (Some err', s2) \<longrightarrow>
            loop K E T r (Event order # signals) s =
              (Returned (Some (Errorf ''error tearing down: %w'' [] err')), s2))"
proof -
  have c: "cycle K E T r order s =
          (case teardownAll K r s1 of
             (Some err', s2) \<Rightarrow> (Some (Errorf ''error tearing down: %w'' [] err'), s2)
           | (None, s2) \<Rightarrow> (None, s2))"
    by (simp only: cycle_absent [OF assms(3)] onGetError_NotFound [OF assms(2)])
  show ?thesis
    using teardownAll_view [OF assms(1), of K s1 s2] by (simp add: c)
qed

text \<open>
  The configuration is absent, so its read returns the not-found error, and the listing
  of teardown fails: \<^verbatim>\<open>Run\<close> returns an error, and the manifest of the earlier cycle is
  still there.
\<close>

theorem absent_input_counterexample:
  "Run exampleConstants exampleEngine exampleTemplates store [Event []] failingStore =
     (Returned (Some (Errorf ''error tearing down: %w'' []
                       (Errorf ''error listing manifests: %w'' [] (Failure ''store unavailable'')))),
      \<lparr>resources = [staleManifest], registered = dependencies exampleConstants, faults = []\<rparr>) \<and>
   fst (Get store (NewMetadata (config_NamespaceName exampleConstants)
                     (config_K8sControlPlaneType exampleConstants) (config_K8sManifestsID exampleConstants))
          \<lparr>resources = [staleManifest], registered = dependencies exampleConstants,
           faults = [None, Some (Failure ''store unavailable'')]\<rparr>) = Inl NotFound \<and>
   lookup \<lparr>resources = [staleManifest], registered = dependencies exampleConstants, faults = []\<rparr>
     (manifestMetadata exampleConstants ''05-flannel'') = Some staleManifest"
  by (simp add: Run_def cycle_def onGetError_def teardownAll_def store_def storeUpdateDependencies_def
      storeGet_def storeList_def nextFault_def lookup_def failingStore_def exampleConstants_def
      staleManifest_def manifestMetadata_def)

lemma absent_config_example:
  "Get store (NewMetadata (config_NamespaceName exampleConstants) (config_K8sControlPlaneType exampleConstants)
        (config_K8sManifestsID exampleConstants)) staleStore = (Inl NotFound, staleStore)"
  "teardownAll exampleConstants store staleStore = (None, emptyStore)"
  by (simp_all add: teardownAll_def store_def storeGet_def storeList_def storeDestroy_def nextFault_def
      lookup_def staleStore_def emptyStore_def exampleConstants_def staleManifest_def)

lemma absent_secrets_example:
  "Get store (NewMetadata (config_NamespaceName exampleConstants) (config_K8sControlPlaneType exampleConstants)
        (config_K8sManifestsID exampleConstants)) absentStore =
     (Inr (K8sControlPlane (NewMetadata ''config'' ''K8sControlPlane'' ''manifests'') exampleConfig), absentStore)"
  "Get store (NewMetadata (secrets_NamespaceName exampleConstants) (secrets_KubernetesType exampleConstants)
        (secrets_KubernetesID exampleConstants)) absentStore = (Inl NotFound, absentStore)"
  "teardownAll exampleConstants store absentStore = (None, configOnlyStore)"
  by (simp_all add: teardownAll_def store_def storeGet_def storeList_def storeDestroy_def nextFault_def
      lookup_def absentStore_def configOnlyStore_def exampleConstants_def staleManifest_def
      configResource_def)

theorem absent_input_tears_down_witness:
  "storeContract store lookup \<and> IsNotFoundError NotFound \<and>
   Get store (NewMetadata (config_NamespaceName exampleConstants) (config_K8sControlPlaneType exampleConstants)
        (config_K8sManifestsID exampleConstants)) staleStore = (Inl NotFound, staleStore) \<and>
   teardownAll exampleConstants store staleStore = (None, emptyStore) \<and>
   managedIDs exampleConstants (lookup emptyStore) = {} \<and>
   loop exampleConstants exampleEngine exampleTemplates store [Event []] staleStore = (Waiting, emptyStore) \<and>
   Get store (NewMetadata (secrets_NamespaceName exampleConstants) (secrets_KubernetesType exampleConstants)
        (secrets_KubernetesID exampleConstants)) absentStore = (Inl NotFound, absentStore) \<and>
   teardownAll exampleConstants store absentStore = (None, configOnlyStore) \<and>
   managedIDs exampleConstants (lookup configOnlyStore) = {} \<and>
   loop exampleConstants exampleEngine exampleTemplates store [Event []] absentStore = (Waiting, configOnlyStore)"
proof -
  have nf: "IsNotFoundError NotFound" by simp
  let ?cfg = "NewMetadata (config_NamespaceName exampleConstants) (config_K8sControlPlaneType exampleConstants)
        (config_K8sManifestsID exampleConstants)"
  let ?sec = "NewMetadata (secrets_NamespaceName exampleConstants) (secrets_KubernetesType exampleConstants)
        (secrets_KubernetesID exampleConstants)"
  have h1: "Get store ?cfg staleStore = (Inl NotFound, staleStore) \<or>
            (\<exists>md config s0. Get store ?cfg staleStore = (Inr (K8sControlPlane md config), s0) \<and>
               Get store ?sec s0 = (Inl NotFound, staleStore))"
    using absent_config_example(1) by (rule disjI1)
  have h2: "Get store ?cfg absentStore = (Inl NotFound, absentStore) \<or>
            (\<exists>md config s0. Get store ?cfg absentStore = (Inr (K8sControlPlane md config), s0) \<and>
               Get store ?sec s0 = (Inl NotFound, absentStore))"
    using absent_secrets_example(1,2) by blast
  show ?thesis
    using absent_input_tears_down [OF store_contract nf h1, of emptyStore exampleEngine exampleTemplates "[]" "[]"]
      absent_input_tears_down [OF store_contract nf h2, of configOnlyStore exampleEngine exampleTemplates "[]" "[]"]
      store_contract absent_config_example absent_secrets_example
    by simp
qed

subsection \<open>The order of the calls\<close>

lemma traced_simps [simp]:
  "UpdateDependencies (traced r) deps (s, calls) =
     (case UpdateDependencies r deps s of (res, s') \<Rightarrow> (res, (s', calls @ [CallUpdateDependencies deps])))"
  "Get (traced r) md (s, calls) =
     (case Get r md s of (res, s') \<Rightarrow> (res, (s', calls @ [CallGet md])))"
  "List (traced r) md (s, calls) =
     (case List r md s of (lres, s') \<Rightarrow> (lres, (s', calls @ [CallList md])))"
  "Update (traced r) new f (s, calls) =
     (case Update r new f s of (res, s') \<Rightarrow> (res, (s', calls @ [CallUpdate new])))"
  "Destroy (traced r) md (s, calls) =
     (case Destroy r md s of (res, s') \<Rightarrow> (res, (s', calls @ [CallDestroy md])))"
  by (simp_all add: traced_def)

lemma updateManifests_calls:
  "updateManifests K (traced r) D (s, calls) = (res, (s', calls')) \<Longrightarrow>
     \<exists>n\<le>length D. calls' = calls @ map (\<lambda>m. CallUpdate (NewManifest K (k8s_ControlPlaneNamespaceName K) (name m))) (take n D) \<and>
        (res = None \<longrightarrow> n = length D)"
proof (induction D arbitrary: s calls)
  case Nil
  then show ?case by simp
next
  case (Cons m D)
  let ?u = "CallUpdate (NewManifest K (k8s_ControlPlaneNamespaceName K) (name m))"
  obtain ures s1 where u: "Update r (NewManifest K (k8s_ControlPlaneNamespaceName K) (name m)) (setManifestYAML (data m)) s = (ures, s1)"
    by (cases "Update r (NewManifest K (k8s_ControlPlaneNamespaceName K) (name m)) (setManifestYAML (data m)) s")
  show ?case
  proof (cases ures)
    case None
    with Cons.prems u have "updateManifests K (traced r) D (s1, calls @ [?u]) = (res, (s', calls'))"
      by simp
    from Cons.IH [OF this] obtain n where n: "n \<le> length D"
      "calls' = (calls @ [?u]) @ map (\<lambda>m. CallUpdate (NewManifest K (k8s_ControlPlaneNamespaceName K) (name m))) (take n D)"
      "res = None \<longrightarrow> n = length D" by blast
    show ?thesis
      by (rule exI [of _ "Suc n"]) (use n in simp)
  next
    case (Some err)
    with Cons.prems u have "calls' = calls @ [?u]" "res \<noteq> None" by auto
    then show ?thesis
      by (intro exI [of _ "Suc 0"]) auto
  qed
qed

lemma destroyManifests_calls:
  "destroyManifests K (traced r) ids (s, calls) = (res, (s', calls')) \<Longrightarrow>
     \<exists>n. calls' = calls @ map (\<lambda>i. CallDestroy (manifestMetadata K i)) (take n ids)"
proof (induction ids arbitrary: s calls)
  case Nil
  then show ?case by simp
next
  case (Cons i ids)
  let ?d = "CallDestroy (manifestMetadata K i)"
  obtain dres s1 where d: "Destroy r (manifestMetadata K i) s = (dres, s1)"
    by (cases "Destroy r (manifestMetadata K i) s")
  show ?case
  proof (cases dres)
    case None
    with Cons.prems d have "destroyManifests K (traced r) ids (s1, calls @ [?d]) = (res, (s', calls'))"
      by (simp add: manifestMetadata_def)
    from Cons.IH [OF this] obtain n where
      "calls' = (calls @ [?d]) @ map (\<lambda>i. CallDestroy (manifestMetadata K i)) (take n ids)" by blast
    then show ?thesis
      by (intro exI [of _ "Suc n"]) simp
  next
    case (Some err)
    with Cons.prems d have "calls' = calls @ [?d]" by (auto simp: manifestMetadata_def)
    then show ?thesis
      by (intro exI [of _ "Suc 0"]) simp
  qed
qed

lemma manifestsToDelete_disjoint: "set (manifestsToDelete its D) \<inter> name ` set D = {}"
  by (auto simp: manifestsToDelete_set)

text \<open>
  C4. In the calls of a cycle's convergence the listing comes only after the update of
  every rendered manifest: either the calls are updates only, or they are the updates of
  all rendered manifests in the order rendered, every one of which returned no error,
  then the listing, then destroys only. No name that was rendered is among the keys left
  in \<^verbatim>\<open>manifestsToDelete\<close>, whatever was listed, and none is destroyed.
\<close>

theorem converge_lists_after_updates:
  assumes "converge K (traced r) order D (s, []) = (res, (s', calls))"
  shows "((\<exists>n. calls = map (\<lambda>m. CallUpdate (NewManifest K (k8s_ControlPlaneNamespaceName K) (name m))) (take n D)) \<or>
          (\<exists>ids. calls =
              map (\<lambda>m. CallUpdate (NewManifest K (k8s_ControlPlaneNamespaceName K) (name m))) D @
              CallList (manifestMetadata K '''') # map (\<lambda>i. CallDestroy (manifestMetadata K i)) ids \<and>
              set ids \<inter> set (map name D) = {} \<and>
              fst (updateManifests K (traced r) D (s, [])) = None)) \<and>
         set (manifestsToDelete items D) \<inter> set (map name D) = {}"
proof -
  let ?upd = "\<lambda>m. CallUpdate (NewManifest K (k8s_ControlPlaneNamespaceName K) (name m))"
  obtain ures s1 c1 where u: "updateManifests K (traced r) D (s, []) = (ures, (s1, c1))"
    by (metis surj_pair)
  from updateManifests_calls [OF u] obtain n where n: "c1 = map ?upd (take n D)" "ures = None \<longrightarrow> n = length D"
    by auto
  have shape: "(\<exists>n. calls = map ?upd (take n D)) \<or>
          (\<exists>ids. calls = map ?upd D @ CallList (manifestMetadata K '''') # map (\<lambda>i. CallDestroy (manifestMetadata K i)) ids \<and>
              set ids \<inter> set (map name D) = {} \<and>
              fst (updateManifests K (traced r) D (s, [])) = None)"
  proof (cases ures)
    case (Some err)
    with assms u have "calls = c1" by (simp add: converge_def)
    with n show ?thesis by blast
  next
    case None
    with n have c1: "c1 = map ?upd D" by simp
    obtain lres s2 where l: "List r (manifestMetadata K '''') s1 = (lres, s2)"
      by (cases "List r (manifestMetadata K '''') s1")
    show ?thesis
    proof (cases lres)
      case (Inl err)
      with assms u None l have "calls = c1 @ [CallList (manifestMetadata K '''')]"
        by (simp add: converge_def manifestMetadata_def)
      then have "calls = map ?upd D @ CallList (manifestMetadata K '''') # map (\<lambda>i. CallDestroy (manifestMetadata K i)) []"
        using c1 by simp
      then show ?thesis using u None by (intro disjI2 exI [of _ "[]"]) simp
    next
      case (Inr its)
      let ?dels = "rangeOrder order (manifestsToDelete its D)"
      from assms u None l Inr
      have "destroyManifests K (traced r) ?dels (s2, c1 @ [CallList (manifestMetadata K '''')]) = (res, (s', calls))"
        by (simp add: converge_def manifestMetadata_def)
      from destroyManifests_calls [OF this] obtain k where
        k: "calls = (c1 @ [CallList (manifestMetadata K '''')]) @ map (\<lambda>i. CallDestroy (manifestMetadata K i)) (take k ?dels)"
        by blast
      have "set (take k ?dels) \<subseteq> set (manifestsToDelete its D)"
        using set_take_subset [of k ?dels] by (simp add: rangeOrder_set)
      then have "set (take k ?dels) \<inter> set (map name D) = {}"
        using manifestsToDelete_disjoint [of its D] by auto
      then show ?thesis using k c1 u None by (intro disjI2 exI [of _ "take k ?dels"]) simp
    qed
  qed
  then show ?thesis using manifestsToDelete_disjoint [of items D] by simp
qed

lemma converge_traced_example:
  "converge exampleConstants (traced store) [] exampleRendered (exampleStore, []) =
     (None, (convergedStore, exampleCalls))"
  by (simp add: converge_def store_def storeUpdate_def storeList_def storeDestroy_def nextFault_def
      lookup_def exampleStore_def convergedStore_def exampleRendered_def exampleConstants_def
      configResource_def secretsResource_def staleManifest_def NewManifest_def exampleCalls_def
      manifestMetadata_def setManifestYAML_def SetYAML_def manifestsToDelete_def mapStore_def mapDelete_def)

theorem converge_lists_after_updates_witness:
  "converge exampleConstants (traced store) [] exampleRendered (exampleStore, []) =
     (None, (convergedStore, exampleCalls)) \<and>
   length exampleCalls = 13 \<and>
   exampleCalls ! 11 = CallList (manifestMetadata exampleConstants '''') \<and>
   exampleCalls ! 12 = CallDestroy (manifestMetadata exampleConstants ''05-flannel'') \<and>
   set (manifestsToDelete [staleManifest] exampleRendered) \<inter> set (map name exampleRendered) = {}"
  using converge_lists_after_updates [OF converge_traced_example, of "[staleManifest]"]
    converge_traced_example
  by (simp add: exampleCalls_def exampleRendered_def)

subsection \<open>The calls of the loop\<close>

lemma extends_refl [simp]: "extends K calls calls"
  by (simp add: extends_def)

lemma extends_trans: "extends K a b \<Longrightarrow> extends K b c \<Longrightarrow> extends K a c"
  by (auto simp: extends_def)

lemma extends_snoc [simp]: "loopCall K c \<Longrightarrow> extends K calls (calls @ [c])"
  by (simp add: extends_def)

lemma extends_step: "loopCall K c \<Longrightarrow> extends K (calls @ [c]) calls' \<Longrightarrow> extends K calls calls'"
  by (rule extends_trans [OF extends_snoc])

lemma loopCall_Get:
  "loopCall K (CallGet (NewMetadata (config_NamespaceName K) (config_K8sControlPlaneType K) (config_K8sManifestsID K)))"
  "loopCall K (CallGet (NewMetadata (secrets_NamespaceName K) (secrets_KubernetesType K) (secrets_KubernetesID K)))"
  by (simp_all add: dependencies_def)

lemma destroyItems_extends:
  "destroyItems (traced r) its (s, calls) = (res, (s', calls')) \<Longrightarrow> extends K calls calls'"
proof (induction its arbitrary: s calls)
  case Nil
  then show ?case by simp
next
  case (Cons i its)
  obtain dres s1 where d: "Destroy r (Metadata_of i) s = (dres, s1)"
    by (cases "Destroy r (Metadata_of i) s")
  show ?case
  proof (cases dres)
    case None
    with Cons.prems d have "destroyItems (traced r) its (s1, calls @ [CallDestroy (Metadata_of i)]) = (res, (s', calls'))"
      by simp
    from Cons.IH [OF this] show ?thesis by (rule extends_step [rotated]) simp
  next
    case (Some err)
    with Cons.prems d have "calls' = calls @ [CallDestroy (Metadata_of i)]" by auto
    then show ?thesis by simp
  qed
qed

lemma teardownAll_extends:
  assumes "teardownAll K (traced r) (s, calls) = (res, (s', calls'))"
  shows "extends K calls calls'"
proof -
  let ?md = "NewMetadata (k8s_ControlPlaneNamespaceName K) (k8s_ManifestType K) ''''"
  obtain lres s1 where l: "List r ?md s = (lres, s1)" by (cases "List r ?md s")
  show ?thesis
  proof (cases lres)
    case (Inl err)
    with assms l have "calls' = calls @ [CallList ?md]" by (auto simp: teardownAll_def)
    then show ?thesis by simp
  next
    case (Inr its)
    with assms l have "destroyItems (traced r) its (s1, calls @ [CallList ?md]) = (res, (s', calls'))"
      by (simp add: teardownAll_def)
    from destroyItems_extends [OF this] show ?thesis by (rule extends_step [rotated]) simp
  qed
qed

lemma list_all_loopCall_map [simp]:
  "list_all (loopCall K) (map (\<lambda>m. CallUpdate (g m)) xs)"
  "list_all (loopCall K) (map (\<lambda>m. CallDestroy (h m)) ys)"
  by (simp_all add: list_all_iff)

lemma converge_extends:
  assumes "converge K (traced r) order D (s, calls) = (res, (s', calls'))"
  shows "extends K calls calls'"
proof -
  let ?md = "NewMetadata (k8s_ControlPlaneNamespaceName K) (k8s_ManifestType K) ''''"
  obtain ures s1 c1 where u: "updateManifests K (traced r) D (s, calls) = (ures, (s1, c1))"
    by (metis surj_pair)
  from updateManifests_calls [OF u] have e1: "extends K calls c1"
    by (auto simp: extends_def)
  show ?thesis
  proof (cases ures)
    case (Some err)
    with assms u have "calls' = c1" by (simp add: converge_def)
    with e1 show ?thesis by simp
  next
    case None
    obtain lres s2 where l: "List r ?md s1 = (lres, s2)" by (cases "List r ?md s1")
    show ?thesis
    proof (cases lres)
      case (Inl err)
      with assms u None l have "calls' = c1 @ [CallList ?md]" by (simp add: converge_def)
      then show ?thesis using e1 by (auto intro: extends_trans)
    next
      case (Inr its)
      with assms u None l
      have "destroyManifests K (traced r) (rangeOrder order (manifestsToDelete its D)) (s2, c1 @ [CallList ?md])
              = (res, (s', calls'))"
        by (simp add: converge_def)
      from destroyManifests_calls [OF this] have "extends K (c1 @ [CallList ?md]) calls'"
        by (auto simp: extends_def)
      then have "extends K c1 calls'" by (rule extends_step [rotated]) simp
      with e1 show ?thesis by (rule extends_trans)
    qed
  qed
qed

lemma onGetError_extends:
  assumes "onGetError K (traced r) err (s, calls) = (res, (s', calls'))"
  shows "extends K calls calls'"
proof (cases "IsNotFoundError err")
  case False
  with assms show ?thesis by (simp add: onGetError_def)
next
  case True
  obtain tres s1 c1 where t: "teardownAll K (traced r) (s, calls) = (tres, (s1, c1))"
    by (metis surj_pair)
  with assms True have "calls' = c1" by (auto simp: onGetError_def split: option.splits)
  with teardownAll_extends [OF t] show ?thesis by simp
qed

lemma cycle_extends:
  assumes "cycle K E T (traced r) order (s, calls) = (res, (s', calls'))"
  shows "extends K calls calls'"
proof -
  let ?cfg = "NewMetadata (config_NamespaceName K) (config_K8sControlPlaneType K) (config_K8sManifestsID K)"
  let ?sec = "NewMetadata (secrets_NamespaceName K) (secrets_KubernetesType K) (secrets_KubernetesID K)"
  obtain g1 s1 where g1: "Get r ?cfg s = (g1, s1)" by (cases "Get r ?cfg s")
  have e1: "extends K calls (calls @ [CallGet ?cfg])"
    by (rule extends_snoc) (rule loopCall_Get)
  show ?thesis
  proof (cases g1)
    case (Inl err)
    with assms g1 have "onGetError K (traced r) err (s1, calls @ [CallGet ?cfg]) = (res, (s', calls'))"
      by (simp add: cycle_def)
    from e1 onGetError_extends [OF this] show ?thesis by (rule extends_trans)
  next
    case (Inr configResource)
    show ?thesis
    proof (cases configResource)
      case (K8sControlPlane md config)
      obtain g2 s2 where g2: "Get r ?sec s1 = (g2, s2)" by (cases "Get r ?sec s1")
      have "extends K (calls @ [CallGet ?cfg]) ((calls @ [CallGet ?cfg]) @ [CallGet ?sec])"
        by (rule extends_snoc) (rule loopCall_Get)
      with e1 have e2: "extends K calls ((calls @ [CallGet ?cfg]) @ [CallGet ?sec])"
        by (rule extends_trans)
      show ?thesis
      proof (cases g2)
        case (Inl err)
        with assms g1 Inr K8sControlPlane g2
        have "onGetError K (traced r) err (s2, (calls @ [CallGet ?cfg]) @ [CallGet ?sec]) = (res, (s', calls'))"
          by (simp add: cycle_def)
        from onGetError_extends [OF this] e2 show ?thesis by (auto intro: extends_trans)
      next
        case (Inr secretsResources)
        note sr = Inr
        show ?thesis
        proof (cases secretsResources)
          case (Kubernetes md' secrets)
          show ?thesis
          proof (cases "render E T config secrets")
            case (Inl err)
            with assms g1 \<open>g1 = Inr configResource\<close> K8sControlPlane g2 sr Kubernetes
            have "calls' = (calls @ [CallGet ?cfg]) @ [CallGet ?sec]" by (simp add: cycle_def)
            with e2 show ?thesis by simp
          next
            case (Inr renderedManifests)
            with assms g1 \<open>g1 = Inr configResource\<close> K8sControlPlane g2 sr Kubernetes
            have "converge K (traced r) order renderedManifests (s2, (calls @ [CallGet ?cfg]) @ [CallGet ?sec])
                    = (res, (s', calls'))"
              by (simp add: cycle_def)
            from converge_extends [OF this] e2 show ?thesis by (auto intro: extends_trans)
          qed
        next
          case (K8sControlPlane x y)
          with assms g1 \<open>g1 = Inr configResource\<close> \<open>configResource = K8sControlPlane md config\<close> g2 sr
          have "calls' = (calls @ [CallGet ?cfg]) @ [CallGet ?sec]" by (simp add: cycle_def)
          with e2 show ?thesis by simp
        next
          case (Manifest x y)
          with assms g1 \<open>g1 = Inr configResource\<close> \<open>configResource = K8sControlPlane md config\<close> g2 sr
          have "calls' = (calls @ [CallGet ?cfg]) @ [CallGet ?sec]" by (simp add: cycle_def)
          with e2 show ?thesis by simp
        qed
      qed
    next
      case (Kubernetes x y)
      with assms g1 Inr have "calls' = calls @ [CallGet ?cfg]" by (simp add: cycle_def)
      with e1 show ?thesis by simp
    next
      case (Manifest x y)
      with assms g1 Inr have "calls' = calls @ [CallGet ?cfg]" by (simp add: cycle_def)
      with e1 show ?thesis by simp
    qed
  qed
qed

lemma loop_extends:
  "loop K E T (traced r) signals (s, calls) = (out, (s', calls')) \<Longrightarrow> extends K calls calls'"
proof (induction signals arbitrary: s calls)
  case Nil
  then show ?case by simp
next
  case (Cons sig signals)
  show ?case
  proof (cases sig)
    case Done
    with Cons.prems show ?thesis by simp
  next
    case (Event order)
    obtain cres s1 c1 where c: "cycle K E T (traced r) order (s, calls) = (cres, (s1, c1))"
      by (metis surj_pair)
    note e1 = cycle_extends [OF c]
    show ?thesis
    proof (cases cres)
      case None
      with Cons.prems Event c have "loop K E T (traced r) signals (s1, c1) = (out, (s', calls'))"
        by simp
      from e1 Cons.IH [OF this] show ?thesis by (rule extends_trans)
    next
      case (Some err)
      with Cons.prems Event c have "calls' = c1" by simp
      with e1 show ?thesis by simp
    qed
  qed
qed

section \<open>Properties of the loop\<close>





text \<open>
  C9. The first call of \<^verbatim>\<open>Run\<close> is \<^verbatim>\<open>UpdateDependencies\<close> with the two dependencies, both
  weak, and it is the only declaration: every later call is a call of the loop, which
  declares nothing and reads only what was declared. When the declaration is rejected,
  \<^verbatim>\<open>Run\<close> returns the error, wrapped, whatever signals are pending, and has made no other
  call: the loop is not entered.
\<close>

theorem dependencies_declared_once:
  assumes "Run K E T (traced r) signals (s, []) = (out, (s', calls))"
  shows "(\<exists>rest. calls = CallUpdateDependencies (dependencies K) # rest \<and> list_all (loopCall K) rest) \<and>
         map Kind (dependencies K) = [DependencyWeak, DependencyWeak] \<and>
         (UpdateDependencies r (dependencies K) s = (Some err, s1) \<longrightarrow>
            out = Returned (Some (Errorf ''error setting up dependencies: %w'' [] err)) \<and>
            s' = s1 \<and> calls = [CallUpdateDependencies (dependencies K)])"
proof -
  obtain dres s0 where d: "UpdateDependencies r (dependencies K) s = (dres, s0)"
    by (cases "UpdateDependencies r (dependencies K) s")
  have first: "\<exists>rest. calls = CallUpdateDependencies (dependencies K) # rest \<and> list_all (loopCall K) rest"
  proof (cases dres)
    case (Some e)
    with assms d have "calls = [CallUpdateDependencies (dependencies K)]" by (simp add: Run_def)
    then show ?thesis by simp
  next
    case None
    with assms d have "loop K E T (traced r) signals (s0, [CallUpdateDependencies (dependencies K)]) = (out, (s', calls))"
      by (simp add: Run_def)
    from loop_extends [OF this] show ?thesis by (auto simp: extends_def)
  qed
  have weak: "map Kind (dependencies K) = [DependencyWeak, DependencyWeak]"
    by (simp add: dependencies_def)
  have rejected: "UpdateDependencies r (dependencies K) s = (Some err, s1) \<longrightarrow>
            out = Returned (Some (Errorf ''error setting up dependencies: %w'' [] err)) \<and>
            s' = s1 \<and> calls = [CallUpdateDependencies (dependencies K)]"
    using assms by (auto simp: Run_def)
  from first weak rejected show ?thesis by blast
qed

lemma declaration_example:
  "Run exampleConstants exampleEngine exampleTemplates (traced store) [Event [], Done] (staleStore, []) =
     (Returned None,
      (emptyStore\<lparr>registered := dependencies exampleConstants\<rparr>,
       [CallUpdateDependencies (dependencies exampleConstants),
        CallGet (NewMetadata ''config'' ''K8sControlPlane'' ''manifests''),
        CallList (manifestMetadata exampleConstants ''''),
        CallDestroy (manifestMetadata exampleConstants ''05-flannel'')]))"
  "UpdateDependencies store (dependencies exampleConstants) rejectingStore =
     (Some (Failure ''malformed dependency''), staleStore)"
  "Run exampleConstants exampleEngine exampleTemplates (traced store) [Event [], Done] (rejectingStore, []) =
     (Returned (Some (Errorf ''error setting up dependencies: %w'' [] (Failure ''malformed dependency''))),
      (staleStore, [CallUpdateDependencies (dependencies exampleConstants)]))"
  by (simp_all add: Run_def cycle_def onGetError_def teardownAll_def store_def storeUpdateDependencies_def
      storeGet_def storeList_def storeDestroy_def nextFault_def lookup_def staleStore_def
      emptyStore_def rejectingStore_def exampleConstants_def staleManifest_def manifestMetadata_def)

theorem dependencies_declared_once_witness:
  "Run exampleConstants exampleEngine exampleTemplates (traced store) [Event [], Done] (staleStore, []) =
     (Returned None,
      (emptyStore\<lparr>registered := dependencies exampleConstants\<rparr>,
       [CallUpdateDependencies (dependencies exampleConstants),
        CallGet (NewMetadata ''config'' ''K8sControlPlane'' ''manifests''),
        CallList (manifestMetadata exampleConstants ''''),
        CallDestroy (manifestMetadata exampleConstants ''05-flannel'')])) \<and>
   list_all (loopCall exampleConstants)
       [CallGet (NewMetadata ''config'' ''K8sControlPlane'' ''manifests''),
        CallList (manifestMetadata exampleConstants ''''),
        CallDestroy (manifestMetadata exampleConstants ''05-flannel'')] \<and>
   UpdateDependencies store (dependencies exampleConstants) rejectingStore =
     (Some (Failure ''malformed dependency''), staleStore) \<and>
   Run exampleConstants exampleEngine exampleTemplates (traced store) [Event [], Done] (rejectingStore, []) =
     (Returned (Some (Errorf ''error setting up dependencies: %w'' [] (Failure ''malformed dependency''))),
      (staleStore, [CallUpdateDependencies (dependencies exampleConstants)]))"
  using dependencies_declared_once [OF declaration_example(1), of "Failure ''malformed dependency''" staleStore]
    dependencies_declared_once [OF declaration_example(3), of "Failure ''malformed dependency''" staleStore]
    declaration_example
  by simp

end
